theory Spec2Isabelle
  imports Main
begin

section \<open>Python values used by the analytics service\<close>

subsection \<open>Exceptions\<close>

text \<open>
  The handlers catch \<^verbatim>\<open>Exception\<close> and \<^verbatim>\<open>convert_date_to_unix\<close> catches
  \<^verbatim>\<open>ValueError\<close>, so the model keeps the class of an exception where the source
  looks at it: \<open>ValueError m\<close> with its message, \<open>KeyError k\<close> for a missing
  dictionary key \<open>k\<close>, and \<open>OtherError m\<close> for every other subclass of
  \<^verbatim>\<open>Exception\<close> (a failure of the HTTP client, an overflow of the platform's
  clock, ...). \<open>str_exn\<close> is Python's \<^verbatim>\<open>str(e)\<close>, which the f-strings of the
  handlers apply: the message, and for a \<^verbatim>\<open>KeyError\<close> the key between quotes (the
  keys looked up here are plain identifiers). What is raised outside \<^verbatim>\<open>Exception\<close>
  (\<^verbatim>\<open>KeyboardInterrupt\<close>, \<^verbatim>\<open>SystemExit\<close>, a cancelled task), which no handler
  catches, is outside the model.
\<close>

datatype exn = ValueError string | KeyError string | OtherError string

fun str_exn :: "exn \<Rightarrow> string" where
  "str_exn (ValueError m) = m"
| "str_exn (KeyError k) = [CHR 0x27] @ k @ [CHR 0x27]"
| "str_exn (OtherError m) = m"

subsection \<open>Floats\<close>

text \<open>
  \<^verbatim>\<open>int(dt.timestamp() * 1000)\<close> is computed on IEEE 754 doubles. A double is
  modelled by a mantissa \<open>m\<close> and an exponent \<open>e\<close>, standing for \<open>m * 2 ^ e\<close>;
  every operation computes the exact result and rounds it to 53 significant bits, ties
  to even, as the hardware does. The exponent range is not modelled: the values here
  are counts of seconds and milliseconds, far from overflow and from the subnormals.
\<close>

datatype pyfloat = PyFloat int int

function bit_length :: "int \<Rightarrow> nat" where
  \<comment> \<open>Python's \<^verbatim>\<open>n.bit_length()\<close> for \<open>0 \<le> n\<close>.\<close>
  "bit_length n = (if n \<le> 0 then 0 else 1 + bit_length (n div 2))"
  by pat_completeness auto
termination
  by (relation "measure nat") auto

declare bit_length.simps [simp del]

definition round_half_even :: "int \<Rightarrow> nat \<Rightarrow> int" where
  \<comment> \<open>\<open>m / 2 ^ k\<close> rounded to the nearest integer, a tie going to the even one.\<close>
  "round_half_even m k =
     (let q = m div 2 ^ k; r = m mod 2 ^ k
      in if 2 * r < 2 ^ k then q
         else if 2 ^ k < 2 * r then q + 1
         else if even q then q else q + 1)"

definition to_float :: "int \<Rightarrow> int \<Rightarrow> pyfloat" where
  \<comment> \<open>The double nearest to \<open>m * 2 ^ e\<close>.\<close>
  "to_float m e =
     (let k = bit_length \<bar>m\<bar> - 53
      in PyFloat (round_half_even m k) (e + int k))"

definition float_of_int :: "int \<Rightarrow> pyfloat" where
  "float_of_int n = to_float n 0"

definition float_add :: "pyfloat \<Rightarrow> pyfloat \<Rightarrow> pyfloat" where
  "float_add x y =
     (case (x, y) of (PyFloat m1 e1, PyFloat m2 e2) \<Rightarrow>
        (let e = min e1 e2
         in to_float (m1 * 2 ^ nat (e1 - e) + m2 * 2 ^ nat (e2 - e)) e))"

definition float_mul :: "pyfloat \<Rightarrow> pyfloat \<Rightarrow> pyfloat" where
  "float_mul x y =
     (case (x, y) of (PyFloat m1 e1, PyFloat m2 e2) \<Rightarrow> to_float (m1 * m2) (e1 + e2))"

definition float_quotient :: "int \<Rightarrow> int \<Rightarrow> pyfloat" where
  \<comment> \<open>The double nearest to \<open>n / d\<close>, for \<open>0 \<le> n < 2 ^ 53\<close> and \<open>0 < d\<close>: the
      quotient is scaled by \<open>2 ^ k\<close> into \<open>2 ^ 52 ..< 2 ^ 53\<close> and rounded there.\<close>
  "float_quotient n d =
     (if n = 0 then PyFloat 0 0
      else
        let k0 = 53 + bit_length d - bit_length n;
            k = (if 2 ^ 53 * d \<le> n * 2 ^ k0 then k0 - 1 else k0);
            q = (n * 2 ^ k) div d;
            r = (n * 2 ^ k) mod d;
            q' = (if 2 * r < d then q
                  else if d < 2 * r then q + 1
                  else if even q then q else q + 1)
        in PyFloat q' (- int k))"

definition float_trunc :: "pyfloat \<Rightarrow> int" where
  \<comment> \<open>Python's \<^verbatim>\<open>int(x)\<close> on a float: the fraction is dropped, towards zero.\<close>
  "float_trunc x =
     (case x of PyFloat m e \<Rightarrow>
        if 0 \<le> e then m * 2 ^ nat e
        else if 0 \<le> m then m div 2 ^ nat (- e)
        else - ((- m) div 2 ^ nat (- e)))"

subsection \<open>Naive date-times and the platform\<close>

text \<open>
  A \<^verbatim>\<open>datetime\<close> without time zone. Two things the source takes from Python's
  standard library and the operating system are parameters of the model, gathered in a
  \<open>platform\<close>: \<^verbatim>\<open>datetime.strptime\<close>, and the conversion of a local date-time to
  whole seconds since the Unix epoch that \<^verbatim>\<open>datetime.timestamp\<close> starts from (it
  depends on the time zone of the process, and raises outside the platform's range).
\<close>

record datetime =
  year :: int
  month :: int
  day :: int
  hour :: int
  minute :: int
  second :: int
  microsecond :: int

record platform =
  strptime :: "string \<Rightarrow> string \<Rightarrow> exn + datetime"
  local_seconds :: "datetime \<Rightarrow> exn + int"

definition timestamp :: "platform \<Rightarrow> datetime \<Rightarrow> exn + pyfloat" where
  \<comment> \<open>\<^verbatim>\<open>dt.timestamp()\<close> of a naive date-time: the local seconds as a float, plus
      \<^verbatim>\<open>microsecond / 1e6\<close>.\<close>
  "timestamp P dt =
     (case local_seconds P dt of
        Inl e \<Rightarrow> Inl e
      | Inr s \<Rightarrow>
          Inr (float_add (float_of_int s) (float_quotient (microsecond dt) 1000000)))"

section \<open>utils.py: the date normalizer\<close>

definition invalid_date_format :: string where
  "invalid_date_format =
     ''Invalid date format. Please use YYYY-MM-DD or YYYY-MM-DD HH:MM:SS. Error: ''"

definition convert_date_to_unix :: "platform \<Rightarrow> string \<Rightarrow> bool \<Rightarrow> exn + int" where
  \<comment> \<open>\<open>parsed\<close> is the inner \<^verbatim>\<open>try\<close> (the format with a time first; on a
      \<^verbatim>\<open>ValueError\<close> the date alone, moved to the end of the day when asked),
      \<open>attempt\<close> the outer one, whose \<^verbatim>\<open>ValueError\<close>s are raised again under the
      message of the module.\<close>
  "convert_date_to_unix P date_str end_of_day =
     (let parsed =
            (case strptime P date_str ''%Y-%m-%d %H:%M:%S'' of
               Inr dt \<Rightarrow> Inr dt
             | Inl (ValueError _) \<Rightarrow>
                 (case strptime P date_str ''%Y-%m-%d'' of
                    Inl e \<Rightarrow> Inl e
                  | Inr dt \<Rightarrow>
                      Inr (if end_of_day
                           then dt\<lparr>hour := 23, minute := 59, second := 59,
                                   microsecond := 999000\<rparr>
                           else dt))
             | Inl e \<Rightarrow> Inl e);
          attempt =
            (case parsed of
               Inl e \<Rightarrow> Inl e
             | Inr dt \<Rightarrow>
                 (case timestamp P dt of
                    Inl e \<Rightarrow> Inl e
                  | Inr t \<Rightarrow> Inr (float_trunc (float_mul t (float_of_int 1000)))))
      in case attempt of
           Inl (ValueError m) \<Rightarrow> Inl (ValueError (invalid_date_format @ m))
         | other \<Rightarrow> other)"

section \<open>server.py: the session collector\<close>

subsection \<open>The remote API\<close>

text \<open>
  Modelled from the spec: the type of the answers of \<^verbatim>\<open>UmamiClient.get_events_where\<close>.
  The class lives in \<^verbatim>\<open>api.py\<close>, which is not among the sources; what it answers is
  a parameter of the model, and only the type of an answer is fixed here, after the
  spec's event page result and the keys that \<^verbatim>\<open>server.py\<close> reads. An answer is
  \<^verbatim>\<open>None\<close> or a dictionary, of which the collector reads three keys: \<^verbatim>\<open>data\<close> (a
  list of events, each a dictionary of strings), \<^verbatim>\<open>page\<close> and \<^verbatim>\<open>count\<close>
  (integers). Each key may be missing; \<open>other_keys\<close> lists what else the dictionary
  holds. Values of other types under these keys are outside the model.
\<close>

type_synonym event = "(string \<times> string) list"

record events_page =
  data_key :: "event list option"
  page_key :: "int option"
  count_key :: "int option"
  other_keys :: "string list"

definition empty_dict :: "events_page \<Rightarrow> bool" where
  "empty_dict p =
     (data_key p = None \<and> page_key p = None \<and> count_key p = None \<and> other_keys p = [])"

definition subscript :: "'a option \<Rightarrow> string \<Rightarrow> exn + 'a" where
  \<comment> \<open>\<^verbatim>\<open>d[k]\<close>, given what the dictionary holds under \<open>k\<close>.\<close>
  "subscript v k = (case v of None \<Rightarrow> Inl (KeyError k) | Some x \<Rightarrow> Inr x)"

text \<open>The keyword arguments of one call of \<^verbatim>\<open>client.get_events_where\<close>.\<close>

record events_request =
  rq_website_id :: string
  rq_start_at :: int
  rq_end_at :: int
  rq_unit :: string
  rq_timezone :: string
  rq_query :: "string option"
  rq_page :: int
  rq_page_size :: int

text \<open>
  The client is a sequence of replies: \<open>client k\<close> is what the call number \<open>k\<close>
  (from 0) gives, an exception or an answer. The requests themselves are recorded, in
  order, in the state of the loop.
\<close>

type_synonym events_client = "nat \<Rightarrow> exn + events_page option"

subsection \<open>\<^verbatim>\<open>_get_session_ids\<close>\<close>

fun session_ids :: "event list \<Rightarrow> exn + string list" where
  \<comment> \<open>\<^verbatim>\<open>event["sessionId"] for event in data\<close>.\<close>
  "session_ids [] = Inr []"
| "session_ids (event # events) =
     (case subscript (map_of event ''sessionId'') ''sessionId'' of
        Inl e \<Rightarrow> Inl e
      | Inr sid \<Rightarrow>
          (case session_ids events of
             Inl e \<Rightarrow> Inl e
           | Inr sids \<Rightarrow> Inr (sid # sids)))"

record loop_state =
  ids :: "string list"
  page :: int
  calls :: "events_request list"

text \<open>
  What a run of the loop has come to: still \<open>Running\<close>, or \<open>Finished\<close> with the
  exception raised or the list returned, and with the requests made. Python leaves the
  order of \<^verbatim>\<open>list(set(ids))\<close> open; the model takes the order of \<open>remdups\<close>, and
  the theorems speak of the set of the list only.
\<close>

datatype outcome =
    Running loop_state
  | Finished "exn + string list" "events_request list"

definition page_request :: "string \<Rightarrow> string option \<Rightarrow> int \<Rightarrow> int \<Rightarrow> int \<Rightarrow> events_request" where
  \<comment> \<open>The keyword arguments of the call in the loop.\<close>
  "page_request website_id event_name start_at end_at page_no =
     \<lparr>rq_website_id = website_id, rq_start_at = start_at, rq_end_at = end_at,
      rq_unit = ''day'', rq_timezone = ''UTC'', rq_query = event_name,
      rq_page = page_no, rq_page_size = 200\<rparr>"

definition loop_body ::
  "events_client \<Rightarrow> string \<Rightarrow> string option \<Rightarrow> int \<Rightarrow> int \<Rightarrow> loop_state \<Rightarrow> outcome" where
  \<comment> \<open>One turn of \<^verbatim>\<open>while True\<close>.\<close>
  "loop_body client website_id event_name start_at end_at st =
     (let made = calls st @ [page_request website_id event_name start_at end_at (page st)]
      in case client (length (calls st)) of
           Inl e \<Rightarrow> Finished (Inl e) made
         | Inr None \<Rightarrow> Finished (Inr (remdups (ids st))) made
         | Inr (Some events_where) \<Rightarrow>
             if empty_dict events_where then Finished (Inr (remdups (ids st))) made
             else
               (case subscript (data_key events_where) ''data'' of
                  Inl e \<Rightarrow> Finished (Inl e) made
                | Inr data \<Rightarrow>
               (case session_ids data of
                  Inl e \<Rightarrow> Finished (Inl e) made
                | Inr sids \<Rightarrow>
               (let ids' = ids st @ remdups sids
                in case subscript (page_key events_where) ''page'' of
                     Inl e \<Rightarrow> Finished (Inl e) made
                   | Inr reported_page \<Rightarrow>
                  (case subscript (count_key events_where) ''count'' of
                     Inl e \<Rightarrow> Finished (Inl e) made
                   | Inr reported_count \<Rightarrow>
                       if 200 * reported_page \<ge> reported_count
                       then Finished (Inr (remdups ids')) made
                       else Running \<lparr>ids = ids', page = page st + 1, calls = made\<rparr>)))))"

fun while_true :: "nat \<Rightarrow> (loop_state \<Rightarrow> outcome) \<Rightarrow> loop_state \<Rightarrow> outcome" where
  \<comment> \<open>At most \<open>fuel\<close> turns of the loop; \<open>Running\<close> when they did not end it.\<close>
  "while_true 0 body st = Running st"
| "while_true (Suc fuel) body st =
     (case body st of
        Running st' \<Rightarrow> while_true fuel body st'
      | Finished r made \<Rightarrow> Finished r made)"

definition internal_get_session_ids ::
  "nat \<Rightarrow> events_client \<Rightarrow> string \<Rightarrow> string option \<Rightarrow> int \<Rightarrow> int \<Rightarrow> outcome" where
  \<comment> \<open>The source's \<^verbatim>\<open>_get_session_ids\<close>, with \<open>fuel\<close> bounding the turns of its loop.\<close>
  "internal_get_session_ids fuel client website_id event_name start_at end_at =
     while_true fuel (loop_body client website_id event_name start_at end_at)
       \<lparr>ids = [], page = 1, calls = []\<rparr>"

subsection \<open>Kinds of replies\<close>

text \<open>
  The vocabulary of the statements about the loop. A reply is \<open>empty_reply\<close> when it
  is \<^verbatim>\<open>None\<close> or \<^verbatim>\<open>{}\<close>, the values for which \<^verbatim>\<open>not events_where\<close> holds.
  \<open>page_content\<close> is defined for a reply that is a whole page: a dictionary with
  \<^verbatim>\<open>data\<close>, every event of it with a \<^verbatim>\<open>sessionId\<close>, \<^verbatim>\<open>page\<close> and
  \<^verbatim>\<open>count\<close>; it gives the session ids in the order of the events, the page number
  and the count that the reply reports.
\<close>

definition made_requests :: "outcome \<Rightarrow> events_request list" where
  "made_requests out = (case out of Running st \<Rightarrow> calls st | Finished r made \<Rightarrow> made)"

definition empty_reply :: "exn + events_page option \<Rightarrow> bool" where
  "empty_reply reply =
     (case reply of
        Inl e \<Rightarrow> False
      | Inr None \<Rightarrow> True
      | Inr (Some p) \<Rightarrow> empty_dict p)"

definition page_content :: "exn + events_page option \<Rightarrow> (string list \<times> int \<times> int) option" where
  "page_content reply =
     (case reply of
        Inr (Some p) \<Rightarrow>
          (case (data_key p, page_key p, count_key p) of
             (Some data, Some reported_page, Some reported_count) \<Rightarrow>
               (case session_ids data of
                  Inl e \<Rightarrow> None
                | Inr sids \<Rightarrow> Some (sids, reported_page, reported_count))
           | _ \<Rightarrow> None)
      | _ \<Rightarrow> None)"

definition more_pages :: "exn + events_page option \<Rightarrow> bool" where
  \<comment> \<open>A whole page whose count is above 200 times its page number.\<close>
  "more_pages reply =
     (case page_content reply of
        None \<Rightarrow> False
      | Some (sids, reported_page, reported_count) \<Rightarrow> 200 * reported_page < reported_count)"

definition last_page :: "exn + events_page option \<Rightarrow> bool" where
  \<comment> \<open>An empty reply, or a whole page whose count is at most 200 times its page number.\<close>
  "last_page reply =
     (empty_reply reply \<or>
      (case page_content reply of
         None \<Rightarrow> False
       | Some (sids, reported_page, reported_count) \<Rightarrow> reported_count \<le> 200 * reported_page))"

definition reply_ids :: "exn + events_page option \<Rightarrow> string set" where
  "reply_ids reply =
     (case page_content reply of
        None \<Rightarrow> {}
      | Some (sids, reported_page, reported_count) \<Rightarrow> set sids)"

section \<open>server.py: the tool handlers\<close>

text \<open>
  Every call of the client that a handler makes is recorded. For the handlers other
  than the session listing the client is a function from the request to an exception
  or a decoded answer of some type \<open>'j\<close>, and \<^verbatim>\<open>json.dumps\<close> is a parameter, which
  may raise as well.
\<close>

datatype api_request =
    Get_websites
  | Get_events_where events_request
  | Get_user_activity string string int int
  | Get_website_stats string int int
  | Get_website_metrics string int int string
  | Get_pageview_series string int int string string
  | Get_active string

record tool_result =
  returned :: string
  requests :: "api_request list"
  logged :: "string list"

definition except_clause ::
  "string \<Rightarrow> string \<Rightarrow> (exn + string) \<times> api_request list \<Rightarrow> tool_result" where
  \<comment> \<open>The end of every handler: the value of the \<^verbatim>\<open>try\<close> block is returned, and an
      exception \<open>e\<close> is logged under the handler's name and returned as
      \<^verbatim>\<open>f"{label}{e}"\<close>.\<close>
  "except_clause name label r =
     (case r of
        (Inr s, made) \<Rightarrow> \<lparr>returned = s, requests = made, logged = []\<rparr>
      | (Inl e, made) \<Rightarrow>
          \<lparr>returned = label @ str_exn e, requests = made,
           logged = [name @ '' error: '' @ str_exn e]\<rparr>)"

definition get_websites_try ::
  "(api_request \<Rightarrow> exn + 'j) \<Rightarrow> ('j \<Rightarrow> exn + string) \<Rightarrow> (exn + string) \<times> api_request list" where
  "get_websites_try client dumps =
     (case client Get_websites of
        Inl e \<Rightarrow> (Inl e, [Get_websites])
      | Inr sites \<Rightarrow> (dumps sites, [Get_websites]))"

definition get_websites ::
  "(api_request \<Rightarrow> exn + 'j) \<Rightarrow> ('j \<Rightarrow> exn + string) \<Rightarrow> tool_result" where
  "get_websites client dumps =
     except_clause ''get_websites'' ''Error fetching websites: '' (get_websites_try client dumps)"

definition get_session_ids_try ::
  "nat \<Rightarrow> platform \<Rightarrow> events_client \<Rightarrow> (string list \<Rightarrow> exn + string) \<Rightarrow>
   string \<Rightarrow> string \<Rightarrow> string \<Rightarrow> string option \<Rightarrow> ((exn + string) \<times> api_request list) option" where
  \<comment> \<open>\<open>None\<close>: the loop of the collector is still running when the fuel is used up.\<close>
  "get_session_ids_try fuel P client dumps website_id start_at end_at event_name =
     (case convert_date_to_unix P start_at False of
        Inl e \<Rightarrow> Some (Inl e, [])
      | Inr start_ts \<Rightarrow>
     (case convert_date_to_unix P end_at True of
        Inl e \<Rightarrow> Some (Inl e, [])
      | Inr end_ts \<Rightarrow>
     (case internal_get_session_ids fuel client website_id event_name start_ts end_ts of
        Running st \<Rightarrow> None
      | Finished (Inl e) made \<Rightarrow> Some (Inl e, map Get_events_where made)
      | Finished (Inr found) made \<Rightarrow> Some (dumps found, map Get_events_where made))))"

definition get_session_ids ::
  "nat \<Rightarrow> platform \<Rightarrow> events_client \<Rightarrow> (string list \<Rightarrow> exn + string) \<Rightarrow>
   string \<Rightarrow> string \<Rightarrow> string \<Rightarrow> string option \<Rightarrow> tool_result option" where
  "get_session_ids fuel P client dumps website_id start_at end_at event_name =
     map_option (except_clause ''get_session_ids'' ''Error fetching session IDs: '')
       (get_session_ids_try fuel P client dumps website_id start_at end_at event_name)"

definition get_tracking_data_try ::
  "platform \<Rightarrow> (api_request \<Rightarrow> exn + 'j) \<Rightarrow> ('j \<Rightarrow> exn + string) \<Rightarrow>
   string \<Rightarrow> string \<Rightarrow> string \<Rightarrow> string \<Rightarrow> (exn + string) \<times> api_request list" where
  "get_tracking_data_try P client dumps website_id session_id start_at end_at =
     (case convert_date_to_unix P start_at False of
        Inl e \<Rightarrow> (Inl e, [])
      | Inr start_ts \<Rightarrow>
     (case convert_date_to_unix P end_at True of
        Inl e \<Rightarrow> (Inl e, [])
      | Inr end_ts \<Rightarrow>
     (let rq = Get_user_activity website_id session_id start_ts end_ts
      in case client rq of
           Inl e \<Rightarrow> (Inl e, [rq])
         | Inr data \<Rightarrow> (dumps data, [rq]))))"

definition get_tracking_data ::
  "platform \<Rightarrow> (api_request \<Rightarrow> exn + 'j) \<Rightarrow> ('j \<Rightarrow> exn + string) \<Rightarrow>
   string \<Rightarrow> string \<Rightarrow> string \<Rightarrow> string \<Rightarrow> tool_result" where
  "get_tracking_data P client dumps website_id session_id start_at end_at =
     except_clause ''get_tracking_data'' ''Error fetching tracking data: ''
       (get_tracking_data_try P client dumps website_id session_id start_at end_at)"

definition get_website_stats_try ::
  "platform \<Rightarrow> (api_request \<Rightarrow> exn + 'j) \<Rightarrow> ('j \<Rightarrow> exn + string) \<Rightarrow>
   string \<Rightarrow> string \<Rightarrow> string \<Rightarrow> (exn + string) \<times> api_request list" where
  "get_website_stats_try P client dumps website_id start_at end_at =
     (case convert_date_to_unix P start_at False of
        Inl e \<Rightarrow> (Inl e, [])
      | Inr start_ts \<Rightarrow>
     (case convert_date_to_unix P end_at True of
        Inl e \<Rightarrow> (Inl e, [])
      | Inr end_ts \<Rightarrow>
     (let rq = Get_website_stats website_id start_ts end_ts
      in case client rq of
           Inl e \<Rightarrow> (Inl e, [rq])
         | Inr stats \<Rightarrow> (dumps stats, [rq]))))"

definition get_website_stats ::
  "platform \<Rightarrow> (api_request \<Rightarrow> exn + 'j) \<Rightarrow> ('j \<Rightarrow> exn + string) \<Rightarrow>
   string \<Rightarrow> string \<Rightarrow> string \<Rightarrow> tool_result" where
  "get_website_stats P client dumps website_id start_at end_at =
     except_clause ''get_website_stats'' ''Error fetching website stats: ''
       (get_website_stats_try P client dumps website_id start_at end_at)"

definition get_website_metrics_try ::
  "platform \<Rightarrow> (api_request \<Rightarrow> exn + 'j) \<Rightarrow> ('j \<Rightarrow> exn + string) \<Rightarrow>
   string \<Rightarrow> string \<Rightarrow> string \<Rightarrow> string \<Rightarrow> (exn + string) \<times> api_request list" where
  "get_website_metrics_try P client dumps website_id start_at end_at type =
     (case convert_date_to_unix P start_at False of
        Inl e \<Rightarrow> (Inl e, [])
      | Inr start_ts \<Rightarrow>
     (case convert_date_to_unix P end_at True of
        Inl e \<Rightarrow> (Inl e, [])
      | Inr end_ts \<Rightarrow>
     (let rq = Get_website_metrics website_id start_ts end_ts type
      in case client rq of
           Inl e \<Rightarrow> (Inl e, [rq])
         | Inr metrics \<Rightarrow> (dumps metrics, [rq]))))"

definition get_website_metrics ::
  "platform \<Rightarrow> (api_request \<Rightarrow> exn + 'j) \<Rightarrow> ('j \<Rightarrow> exn + string) \<Rightarrow>
   string \<Rightarrow> string \<Rightarrow> string \<Rightarrow> string \<Rightarrow> tool_result" where
  "get_website_metrics P client dumps website_id start_at end_at type =
     except_clause ''get_website_metrics'' ''Error fetching website metrics: ''
       (get_website_metrics_try P client dumps website_id start_at end_at type)"

definition get_pageview_series_try ::
  "platform \<Rightarrow> (api_request \<Rightarrow> exn + 'j) \<Rightarrow> ('j \<Rightarrow> exn + string) \<Rightarrow>
   string \<Rightarrow> string \<Rightarrow> string \<Rightarrow> string \<Rightarrow> string \<Rightarrow> (exn + string) \<times> api_request list" where
  "get_pageview_series_try P client dumps website_id start_at end_at unit timezone =
     (case convert_date_to_unix P start_at False of
        Inl e \<Rightarrow> (Inl e, [])
      | Inr start_ts \<Rightarrow>
     (case convert_date_to_unix P end_at True of
        Inl e \<Rightarrow> (Inl e, [])
      | Inr end_ts \<Rightarrow>
     (let rq = Get_pageview_series website_id start_ts end_ts unit timezone
      in case client rq of
           Inl e \<Rightarrow> (Inl e, [rq])
         | Inr series \<Rightarrow> (dumps series, [rq]))))"

definition get_pageview_series ::
  "platform \<Rightarrow> (api_request \<Rightarrow> exn + 'j) \<Rightarrow> ('j \<Rightarrow> exn + string) \<Rightarrow>
   string \<Rightarrow> string \<Rightarrow> string \<Rightarrow> string \<Rightarrow> string \<Rightarrow> tool_result" where
  "get_pageview_series P client dumps website_id start_at end_at unit timezone =
     except_clause ''get_pageview_series'' ''Error fetching pageview series: ''
       (get_pageview_series_try P client dumps website_id start_at end_at unit timezone)"

definition get_active_visitors_try ::
  "(api_request \<Rightarrow> exn + 'j) \<Rightarrow> ('j \<Rightarrow> exn + string) \<Rightarrow> string \<Rightarrow>
   (exn + string) \<times> api_request list" where
  "get_active_visitors_try client dumps website_id =
     (case client (Get_active website_id) of
        Inl e \<Rightarrow> (Inl e, [Get_active website_id])
      | Inr data \<Rightarrow> (dumps data, [Get_active website_id]))"

definition get_active_visitors ::
  "(api_request \<Rightarrow> exn + 'j) \<Rightarrow> ('j \<Rightarrow> exn + string) \<Rightarrow> string \<Rightarrow> tool_result" where
  "get_active_visitors client dumps website_id =
     except_clause ''get_active_visitors'' ''Error fetching active visitors: ''
       (get_active_visitors_try client dumps website_id)"

section \<open>A reference platform: CPython 3.11 in the UTC zone\<close>

text \<open>
  The theorems below hold for every platform. To evaluate the program on concrete
  strings, this section models the two library functions for one platform: CPython
  3.11 running with \<^verbatim>\<open>TZ=UTC\<close>. Strings hold code points below 256.
\<close>

subsection \<open>\<^verbatim>\<open>datetime.strptime\<close>\<close>

text \<open>
  \<^verbatim>\<open>_strptime\<close> turns the format into a regular expression: a directive becomes a
  group of ordered alternatives, a run of whitespace becomes \<^verbatim>\<open>\s+\<close>, any other
  character stands for itself. The expression is matched at the start of the input with
  backtracking and what it leaves over is an error. Only the directives of the two
  formats of \<^verbatim>\<open>utils.py\<close> are modelled.
\<close>

definition is_space :: "char \<Rightarrow> bool" where
  "is_space c =
     (let n = (of_char c :: nat)
      in (9 \<le> n \<and> n \<le> 13) \<or> (28 \<le> n \<and> n \<le> 32) \<or> n = 133 \<or> n = 160)"

definition in_class :: "char \<Rightarrow> char \<times> char \<Rightarrow> bool" where
  "in_class c r = ((of_char (fst r) :: nat) \<le> of_char c \<and> (of_char c :: nat) \<le> of_char (snd r))"

definition digit :: "char \<times> char" where
  "digit = (CHR ''0'', CHR ''9'')"

definition directive_regex :: "char \<Rightarrow> (char \<times> char) list list" where
  \<comment> \<open>The alternatives of a directive, in the order of the regular expression; an
      alternative is a sequence of character ranges.\<close>
  "directive_regex c =
     (if c = CHR ''Y'' then [[digit, digit, digit, digit]]
      else if c = CHR ''m'' then
        [[(CHR ''1'', CHR ''1''), (CHR ''0'', CHR ''2'')],
         [(CHR ''0'', CHR ''0''), (CHR ''1'', CHR ''9'')],
         [(CHR ''1'', CHR ''9'')]]
      else if c = CHR ''d'' then
        [[(CHR ''3'', CHR ''3''), (CHR ''0'', CHR ''1'')],
         [(CHR ''1'', CHR ''2''), digit],
         [(CHR ''0'', CHR ''0''), (CHR ''1'', CHR ''9'')],
         [(CHR ''1'', CHR ''9'')],
         [(CHR '' '', CHR '' ''), (CHR ''1'', CHR ''9'')]]
      else if c = CHR ''H'' then
        [[(CHR ''2'', CHR ''2''), (CHR ''0'', CHR ''3'')],
         [(CHR ''0'', CHR ''1''), digit],
         [digit]]
      else if c = CHR ''M'' then
        [[(CHR ''0'', CHR ''5''), digit], [digit]]
      else if c = CHR ''S'' then
        [[(CHR ''6'', CHR ''6''), (CHR ''0'', CHR ''1'')],
         [(CHR ''0'', CHR ''5''), digit],
         [digit]]
      else [])"

fun match_classes :: "(char \<times> char) list \<Rightarrow> string \<Rightarrow> (string \<times> string) option" where
  "match_classes [] s = Some ([], s)"
| "match_classes (r # rs) [] = None"
| "match_classes (r # rs) (c # s) =
     (if in_class c r
      then (case match_classes rs s of
              None \<Rightarrow> None
            | Some (m, rest) \<Rightarrow> Some (c # m, rest))
      else None)"

datatype fmt_item = Directive char | Whitespace | Literal char

fun format_items :: "string \<Rightarrow> fmt_item list" where
  "format_items [] = []"
| "format_items [c] = (if is_space c then [Whitespace] else [Literal c])"
| "format_items (c # d # s) =
     (if c = CHR ''%'' then Directive d # format_items s
      else if is_space c then
        (if is_space d then format_items (d # s) else Whitespace # format_items (d # s))
      else Literal c # format_items (d # s))"

fun first_some :: "('a \<Rightarrow> 'b option) \<Rightarrow> 'a list \<Rightarrow> 'b option" where
  "first_some f [] = None"
| "first_some f (x # xs) = (case f x of None \<Rightarrow> first_some f xs | Some y \<Rightarrow> Some y)"

fun space_runs :: "string \<Rightarrow> string list" where
  \<comment> \<open>What \<^verbatim>\<open>\s+\<close> can leave over, the longest run of whitespace first.\<close>
  "space_runs [] = []"
| "space_runs (c # s) = (if is_space c then space_runs s @ [s] else [])"

fun regex_match :: "fmt_item list \<Rightarrow> string \<Rightarrow> ((char \<times> string) list \<times> string) option" where
  \<comment> \<open>The first match in the order of backtracking: the text of each group, and the
      input left over.\<close>
  "regex_match [] s = Some ([], s)"
| "regex_match (Literal c # items) s =
     (case s of
        [] \<Rightarrow> None
      | x # xs \<Rightarrow> if x = c then regex_match items xs else None)"
| "regex_match (Whitespace # items) s = first_some (regex_match items) (space_runs s)"
| "regex_match (Directive c # items) s =
     first_some
       (\<lambda>(m, rest). case regex_match items rest of
                       None \<Rightarrow> None
                     | Some (groups, left) \<Rightarrow> Some ((c, m) # groups, left))
       (List.map_filter (\<lambda>alt. match_classes alt s) (directive_regex c))"

definition int_of_digits :: "string \<Rightarrow> int" where
  \<comment> \<open>\<^verbatim>\<open>int(text)\<close> of a matched group: decimal digits, after a space for a padded day.\<close>
  "int_of_digits s =
     foldl (\<lambda>n c. 10 * n + (int (of_char c) - 48)) 0 (filter (\<lambda>c. in_class c digit) s)"

definition group_value :: "(char \<times> string) list \<Rightarrow> char \<Rightarrow> int \<Rightarrow> int" where
  "group_value groups c dflt = (case map_of groups c of None \<Rightarrow> dflt | Some m \<Rightarrow> int_of_digits m)"

definition hex_digits :: "nat \<Rightarrow> string" where
  "hex_digits n = [''0123456789abcdef'' ! (n div 16), ''0123456789abcdef'' ! (n mod 16)]"

definition repr_char :: "char \<Rightarrow> char \<Rightarrow> string" where
  "repr_char q c =
     (let n = (of_char c :: nat)
      in if c = q \<or> c = CHR 0x5C then [CHR 0x5C, c]
         else if n = 9 then [CHR 0x5C, CHR ''t'']
         else if n = 10 then [CHR 0x5C, CHR ''n'']
         else if n = 13 then [CHR 0x5C, CHR ''r'']
         else if n < 32 \<or> n = 127 \<or> (128 \<le> n \<and> n \<le> 160) \<or> n = 173
           then [CHR 0x5C, CHR ''x''] @ hex_digits n
         else [c])"

definition py_repr :: "string \<Rightarrow> string" where
  \<comment> \<open>\<^verbatim>\<open>repr\<close> of a string, which \<^verbatim>\<open>%r\<close> puts into the error message.\<close>
  "py_repr s =
     (let q = (if CHR 0x27 \<in> set s \<and> CHR 0x22 \<notin> set s then CHR 0x22 else CHR 0x27)
      in [q] @ concat (map (repr_char q) s) @ [q])"

definition is_leap :: "int \<Rightarrow> bool" where
  "is_leap y = (y mod 4 = 0 \<and> (y mod 100 \<noteq> 0 \<or> y mod 400 = 0))"

definition days_in_month :: "int \<Rightarrow> int \<Rightarrow> int" where
  "days_in_month y m =
     (if m = 2 then (if is_leap y then 29 else 28)
      else if m = 4 \<or> m = 6 \<or> m = 9 \<or> m = 11 then 30 else 31)"

definition cpython_strptime :: "string \<Rightarrow> string \<Rightarrow> exn + datetime" where
  "cpython_strptime data_string fmt =
     (case regex_match (format_items fmt) data_string of
        None \<Rightarrow>
          Inl (ValueError (''time data '' @ py_repr data_string
                           @ '' does not match format '' @ py_repr fmt))
      | Some (groups, left) \<Rightarrow>
          if left \<noteq> [] then Inl (ValueError (''unconverted data remains: '' @ left))
          else
            let y = group_value groups (CHR ''Y'') 1900;
                m = group_value groups (CHR ''m'') 1;
                d = group_value groups (CHR ''d'') 1;
                H = group_value groups (CHR ''H'') 0;
                M = group_value groups (CHR ''M'') 0;
                S = group_value groups (CHR ''S'') 0
            in if y < 1 then Inl (ValueError ''year 0 is out of range'')
               else if days_in_month y m < d then
                 Inl (ValueError ''day is out of range for month'')
               else if 59 < S then Inl (ValueError ''second must be in 0..59'')
               else Inr \<lparr>year = y, month = m, day = d, hour = H, minute = M, second = S,
                         microsecond = 0\<rparr>)"

subsection \<open>Local time in the UTC zone\<close>

definition days_before_year :: "int \<Rightarrow> int" where
  "days_before_year y = (let p = y - 1 in p * 365 + p div 4 - p div 100 + p div 400)"

definition days_before_month :: "int \<Rightarrow> int \<Rightarrow> int" where
  "days_before_month y m = (\<Sum>k \<leftarrow> [1..<nat m]. days_in_month y (int k))"

definition ymd_to_ord :: "int \<Rightarrow> int \<Rightarrow> int \<Rightarrow> int" where
  "ymd_to_ord y m d = days_before_year y + days_before_month y m + d"

definition utc_to_seconds :: "datetime \<Rightarrow> int" where
  \<comment> \<open>Seconds since the start of year 1.\<close>
  "utc_to_seconds dt =
     ((ymd_to_ord (year dt) (month dt) (day dt) * 24 + hour dt) * 60 + minute dt) * 60
     + second dt"

definition epoch :: int where
  "epoch = 719163 * 24 * 60 * 60"

definition utc_local_seconds :: "datetime \<Rightarrow> exn + int" where
  \<comment> \<open>With local time equal to UTC the conversion is the identity, but CPython also
      probes the local time one day earlier (for a repeated hour), which on the first
      day of year 1 leaves the supported years.\<close>
  "utc_local_seconds dt =
     (if utc_to_seconds dt - 24 * 3600 < utc_to_seconds \<lparr>year = 1, month = 1, day = 1,
           hour = 0, minute = 0, second = 0, microsecond = 0\<rparr>
      then Inl (ValueError ''year 0 is out of range'')
      else Inr (utc_to_seconds dt - epoch))"

definition cpython_utc :: platform where
  "cpython_utc = \<lparr>strptime = cpython_strptime, local_seconds = utc_local_seconds\<rparr>"

section \<open>Concrete replies, for evaluation\<close>

definition session :: "string \<Rightarrow> event" where
  "session sid = [(''eventName'', ''click''), (''sessionId'', sid)]"

definition whole_page :: "event list \<Rightarrow> int \<Rightarrow> int \<Rightarrow> exn + events_page option" where
  "whole_page data page_no total_count =
     Inr (Some \<lparr>data_key = Some data, page_key = Some page_no, count_key = Some total_count,
                other_keys = [''pageSize'']\<rparr>)"

definition no_reply :: events_client where
  \<comment> \<open>The API answers \<^verbatim>\<open>None\<close>.\<close>
  "no_reply k = Inr None"

definition page_without_data :: events_client where
  \<comment> \<open>The API answers a dictionary that is not empty and has no \<^verbatim>\<open>data\<close>.\<close>
  "page_without_data k =
     Inr (Some \<lparr>data_key = None, page_key = Some 1, count_key = Some 0,
                other_keys = [''pageSize'']\<rparr>)"

definition count_450 :: events_client where
  \<comment> \<open>The three pages of a result of 450 events (sessions only, for short).\<close>
  "count_450 k =
     whole_page
       (map session
          (if k = 0 then [''A'', ''B''] else if k = 1 then [''B'', ''C'']
           else [''C'', ''A'', ''D'']))
       (int k + 1) 450"

definition two_pages :: events_client where
  \<comment> \<open>Page 1 holds the sessions A, A, B of a result of 5 events; page 2 would hold B, C.\<close>
  "two_pages k =
     (if k = 0 then whole_page [session ''A'', session ''A'', session ''B''] 1 5
      else whole_page [session ''B'', session ''C''] 2 5)"

definition endless :: events_client where
  \<comment> \<open>Every page reports one event more than have been seen.\<close>
  "endless k = whole_page [] (int k + 1) (200 * (int k + 1) + 1)"

definition misreported :: events_client where
  \<comment> \<open>The answer to the request for page 1 calls itself page 2 of 300 events.\<close>
  "misreported k = whole_page [session ''A''] 2 300"

definition ahead_by_one :: events_client where
  \<comment> \<open>The answer to request \<open>k + 1\<close> calls itself page \<open>k + 2\<close>, and counts 100
      events more than \<open>k + 1\<close> full pages hold.\<close>
  "ahead_by_one k = whole_page [] (int k + 2) (200 * (int k + 1) + 100)"

definition breaks_off :: events_client where
  \<comment> \<open>A first page of 1000 events, then the connection fails.\<close>
  "breaks_off k =
     (if k = 0 then whole_page [session ''A''] 1 1000 else Inl (OtherError ''timed out''))"

definition dumps_strings :: "string list \<Rightarrow> exn + string" where
  \<comment> \<open>\<^verbatim>\<open>json.dumps(ids, indent=2)\<close> for strings that need no escape.\<close>
  "dumps_strings xs =
     Inr (if xs = [] then ''[]''
          else ''['' @ [CHR 0x0A]
               @ concat (map (\<lambda>x. ''  '' @ [CHR 0x22] @ x @ [CHR 0x22] @ '','' @ [CHR 0x0A]) (butlast xs))
               @ ''  '' @ [CHR 0x22] @ last xs @ [CHR 0x22] @ [CHR 0x0A] @ '']'')"

definition unreachable_api :: "api_request \<Rightarrow> exn + string" where
  "unreachable_api rq = Inl (OtherError ''connection refused'')"

definition echo_api :: "api_request \<Rightarrow> exn + string" where
  "echo_api rq = Inr ''{}''"

definition dumps_text :: "string \<Rightarrow> exn + string" where
  "dumps_text j = Inr j"

section \<open>Properties of the date normalizer\<close>

subsection \<open>Floats that are exact\<close>

lemma bit_length_bound: "n < 2 ^ k \<Longrightarrow> bit_length n \<le> k"
proof (induction k arbitrary: n)
  case 0
  then show ?case by (simp add: bit_length.simps)
next
  case (Suc k)
  show ?case
  proof (cases "n \<le> 0")
    case True
    then show ?thesis by (simp add: bit_length.simps)
  next
    case False
    from Suc.prems have "n div 2 < 2 ^ k" by simp
    then have "bit_length (n div 2) \<le> k" by (rule Suc.IH)
    with False show ?thesis by (subst bit_length.simps) simp
  qed
qed

lemma round_half_even_0: "round_half_even m 0 = m"
  by (simp add: round_half_even_def)

lemma to_float_exact: "\<bar>m\<bar> < 2 ^ 53 \<Longrightarrow> to_float m e = PyFloat m e"
  using bit_length_bound [of "\<bar>m\<bar>" 53] by (simp add: to_float_def round_half_even_0)

lemma timestamp_whole_seconds:
  assumes "microsecond dt = 0" and "local_seconds P dt = Inr s" and "\<bar>s\<bar> < 2 ^ 53"
  shows "timestamp P dt = Inr (PyFloat s 0)"
  using assms
  by (simp add: timestamp_def float_quotient_def float_add_def float_of_int_def to_float_exact)

lemma milliseconds_exact:
  assumes "\<bar>s\<bar> \<le> 9007199254740"
  shows "float_trunc (float_mul (PyFloat s 0) (float_of_int 1000)) = 1000 * s"
proof -
  have "\<bar>s * 1000\<bar> < 2 ^ 53" using assms by simp
  then have "to_float (s * 1000) 0 = PyFloat (s * 1000) 0" by (rule to_float_exact)
  moreover have "float_of_int 1000 = PyFloat 1000 0"
    by (simp add: float_of_int_def to_float_exact)
  ultimately show ?thesis by (simp add: float_mul_def float_trunc_def)
qed

subsection \<open>Evaluations on the reference platform\<close>

lemma strptime_0830:
  "strptime cpython_utc ''2024-03-01 08:30:00'' ''%Y-%m-%d %H:%M:%S''
   = Inr \<lparr>year = 2024, month = 3, day = 1, hour = 8, minute = 30, second = 0,
          microsecond = 0\<rparr>"
  by code_simp

lemma local_seconds_0830:
  "local_seconds cpython_utc
     \<lparr>year = 2024, month = 3, day = 1, hour = 8, minute = 30, second = 0, microsecond = 0\<rparr>
   = Inr 1709281800"
  by code_simp

lemma strptime_not_a_date:
  "strptime cpython_utc ''not-a-date'' ''%Y-%m-%d %H:%M:%S''
   = Inl (ValueError (''time data '' @ [CHR 0x27] @ ''not-a-date'' @ [CHR 0x27]
        @ '' does not match format '' @ [CHR 0x27] @ ''%Y-%m-%d %H:%M:%S'' @ [CHR 0x27]))"
  "strptime cpython_utc ''not-a-date'' ''%Y-%m-%d''
   = Inl (ValueError (''time data '' @ [CHR 0x27] @ ''not-a-date'' @ [CHR 0x27]
        @ '' does not match format '' @ [CHR 0x27] @ ''%Y-%m-%d'' @ [CHR 0x27]))"
  by code_simp+

lemma convert_2024_03_01: "convert_date_to_unix cpython_utc ''2024-03-01'' False = Inr 1709251200000"
  by code_simp

lemma convert_2024_03_02: "convert_date_to_unix cpython_utc ''2024-03-02'' True = Inr 1709423999999"
  by code_simp

lemma convert_not_a_date:
  "convert_date_to_unix cpython_utc ''not-a-date'' False
   = Inl (ValueError (invalid_date_format @ ''time data '' @ [CHR 0x27] @ ''not-a-date''
        @ [CHR 0x27] @ '' does not match format '' @ [CHR 0x27] @ ''%Y-%m-%d'' @ [CHR 0x27]))"
  by code_simp

lemma convert_slashes:
  "convert_date_to_unix cpython_utc ''03/02/2024'' True
   = Inl (ValueError (invalid_date_format @ ''time data '' @ [CHR 0x27] @ ''03/02/2024''
        @ [CHR 0x27] @ '' does not match format '' @ [CHR 0x27] @ ''%Y-%m-%d'' @ [CHR 0x27]))"
  by code_simp

subsection \<open>The claims about dates\<close>

text \<open>
  A date without a time, at the start of the day: the result is the platform's count of
  seconds for midnight, times 1000. (Every count of seconds of the years 1 to 9999 is
  within the bound.)
\<close>

lemma start_of_day_is_exact:
  assumes "strptime P date_str ''%Y-%m-%d %H:%M:%S'' = Inl (ValueError m)"
    and "strptime P date_str ''%Y-%m-%d'' = Inr dt"
    and "microsecond dt = 0"
    and "local_seconds P dt = Inr s"
    and "\<bar>s\<bar> \<le> 9007199254740"
  shows "convert_date_to_unix P date_str False = Inr (1000 * s)"
proof -
  from assms(5) have "\<bar>s\<bar> < 2 ^ 53" by simp
  with assms have "timestamp P dt = Inr (PyFloat s 0)"
    by (simp add: timestamp_whole_seconds)
  with assms show ?thesis
    by (simp add: convert_date_to_unix_def milliseconds_exact)
qed

text \<open>
  Claim C4 (a date without a time gives the timestamp of 00:00:00.000, or with
  \<open>end_of_day\<close> that of 23:59:59.999, of that day in local time). The first half holds
  (\<open>start_of_day_is_exact\<close>). The second does not: \<^verbatim>\<open>int(dt.timestamp() * 1000)\<close>
  cuts off the fraction of a product of floats, and for some days that product lies
  just below the whole number of milliseconds. On the reference platform the end of
  1987-03-01 is second 541641599 of the epoch, and the function returns
  541641599998 where the millisecond 999 of that second is 541641599999.
\<close>

theorem end_of_day_loses_a_millisecond:
  "convert_date_to_unix cpython_utc ''1987-03-01'' True = Inr 541641599998
   \<and> local_seconds cpython_utc
        \<lparr>year = 1987, month = 3, day = 1, hour = 23, minute = 59, second = 59,
         microsecond = 999000\<rparr> = Inr 541641599"
  by code_simp

text \<open>
  Claim C5. When the string parses under the format with a time, the result is the
  timestamp of exactly that local date-time, in milliseconds, whatever \<open>end_of_day\<close>
  is: \<open>s\<close> is the platform's count of seconds for the parsed date-time (\<open>strptime\<close>
  gives no microseconds for a format without \<^verbatim>\<open>%f\<close>), and the bound on it holds for
  every year from 1 to 9999.
\<close>

theorem explicit_time_is_exact:
  assumes "strptime P date_str ''%Y-%m-%d %H:%M:%S'' = Inr dt"
    and "microsecond dt = 0"
    and "local_seconds P dt = Inr s"
    and "\<bar>s\<bar> \<le> 9007199254740"
  shows "convert_date_to_unix P date_str end_of_day = Inr (1000 * s)"
proof -
  from assms(4) have "\<bar>s\<bar> < 2 ^ 53" by simp
  with assms have "timestamp P dt = Inr (PyFloat s 0)"
    by (simp add: timestamp_whole_seconds)
  with assms show ?thesis
    by (simp add: convert_date_to_unix_def milliseconds_exact)
qed

theorem explicit_time_is_exact_witness:
  "convert_date_to_unix cpython_utc ''2024-03-01 08:30:00'' True = Inr 1709281800000
   \<and> convert_date_to_unix cpython_utc ''2024-03-01 08:30:00'' False = Inr 1709281800000"
  using explicit_time_is_exact [OF strptime_0830 _ local_seconds_0830, of True]
    explicit_time_is_exact [OF strptime_0830 _ local_seconds_0830, of False]
  by simp

text \<open>
  Claim C6. A string that \<open>strptime\<close> rejects under both formats makes the function
  raise a \<^verbatim>\<open>ValueError\<close> whose message is the fixed text about the date format followed
  by the message of the second failure; no timestamp is returned.
\<close>

theorem unparsable_date_is_an_error:
  assumes "strptime P date_str ''%Y-%m-%d %H:%M:%S'' = Inl (ValueError m1)"
    and "strptime P date_str ''%Y-%m-%d'' = Inl (ValueError m2)"
  shows "convert_date_to_unix P date_str end_of_day
         = Inl (ValueError (invalid_date_format @ m2))"
  using assms by (simp add: convert_date_to_unix_def)

theorem unparsable_date_is_an_error_witness:
  "convert_date_to_unix cpython_utc ''not-a-date'' True
   = Inl (ValueError (invalid_date_format @ ''time data '' @ [CHR 0x27] @ ''not-a-date''
        @ [CHR 0x27] @ '' does not match format '' @ [CHR 0x27] @ ''%Y-%m-%d'' @ [CHR 0x27]))"
  using unparsable_date_is_an_error [OF strptime_not_a_date, of True] by simp

section \<open>Properties of the session collector\<close>

subsection \<open>One turn of the loop\<close>

lemma loop_body_empty:
  assumes "empty_reply (client (length (calls st)))"
  shows "loop_body client w ev s t st
         = Finished (Inr (remdups (ids st))) (calls st @ [page_request w ev s t (page st)])"
  using assms
  by (simp add: loop_body_def empty_reply_def split: sum.splits option.splits)

lemma page_content_SomeD:
  assumes "page_content reply = Some (sids, p, c)"
  shows "\<exists>pg data. reply = Inr (Some pg) \<and> data_key pg = Some data \<and> session_ids data = Inr sids
           \<and> page_key pg = Some p \<and> count_key pg = Some c \<and> \<not> empty_dict pg"
  using assms
  by (auto simp: page_content_def empty_dict_def split: sum.splits option.splits)

lemma loop_body_page:
  assumes "page_content (client (length (calls st))) = Some (sids, p, c)"
  shows "loop_body client w ev s t st
         = (if c \<le> 200 * p
            then Finished (Inr (remdups (ids st @ remdups sids)))
                   (calls st @ [page_request w ev s t (page st)])
            else Running \<lparr>ids = ids st @ remdups sids, page = page st + 1,
                           calls = calls st @ [page_request w ev s t (page st)]\<rparr>)"
proof -
  from page_content_SomeD [OF assms] obtain pg data where
    "client (length (calls st)) = Inr (Some pg)" "data_key pg = Some data"
    "session_ids data = Inr sids" "page_key pg = Some p" "count_key pg = Some c"
    "\<not> empty_dict pg" by blast
  then show ?thesis by (simp add: loop_body_def subscript_def)
qed

lemma loop_body_raises:
  assumes "\<not> empty_reply (client (length (calls st)))"
    and "page_content (client (length (calls st))) = None"
  shows "\<exists>e. loop_body client w ev s t st
         = Finished (Inl e) (calls st @ [page_request w ev s t (page st)])"
  using assms
  by (auto simp: loop_body_def empty_reply_def page_content_def subscript_def Let_def
      split: sum.splits option.splits)

lemma loop_body_shape:
  "(\<exists>r. loop_body client w ev s t st = Finished r (calls st @ [page_request w ev s t (page st)]))
   \<or> (\<exists>found. loop_body client w ev s t st
        = Running \<lparr>ids = found, page = page st + 1,
                    calls = calls st @ [page_request w ev s t (page st)]\<rparr>)"
proof (cases "empty_reply (client (length (calls st)))")
  case True
  then show ?thesis by (simp add: loop_body_empty)
next
  case False
  show ?thesis
  proof (cases "page_content (client (length (calls st)))")
    case None
    with False loop_body_raises show ?thesis by blast
  next
    case (Some a)
    then obtain sids p c where "page_content (client (length (calls st))) = Some (sids, p, c)"
      by (cases a) auto
    then show ?thesis by (simp add: loop_body_page)
  qed
qed


subsection \<open>Runs of the loop\<close>

lemma while_true_snoc:
  "while_true (Suc n) body st
   = (case while_true n body st of Running st' \<Rightarrow> body st' | Finished r made \<Rightarrow> Finished r made)"
proof (induction n arbitrary: st)
  case 0
  show ?case by (cases "body st") simp_all
next
  case (Suc n)
  show ?case
  proof (cases "body st")
    case (Running st1)
    then have "while_true (Suc (Suc n)) body st = while_true (Suc n) body st1" by simp
    also have "\<dots> = (case while_true n body st1 of Running st' \<Rightarrow> body st'
                       | Finished r made \<Rightarrow> Finished r made)" by (rule Suc.IH)
    also have "while_true n body st1 = while_true (Suc n) body st" using Running by simp
    finally show ?thesis .
  next
    case (Finished r made)
    then show ?thesis by simp
  qed
qed

text \<open>Once the loop has ended, more fuel changes nothing.\<close>

lemma while_true_finished_stable:
  "while_true n body st = Finished r made \<Longrightarrow> while_true (n + extra) body st = Finished r made"
proof (induction n arbitrary: st)
  case 0
  then show ?case by simp
next
  case (Suc n)
  then show ?case by (cases "body st") auto
qed

lemma running_state:
  assumes "while_true n (loop_body client w ev s t) st = Running st'"
  shows "length (calls st') = length (calls st) + n \<and> page st' = page st + int n"
  using assms
proof (induction n arbitrary: st)
  case 0
  then show ?case by simp
next
  case (Suc n)
  from loop_body_shape [of client w ev s t st] show ?case
  proof
    assume "\<exists>r. loop_body client w ev s t st
              = Finished r (calls st @ [page_request w ev s t (page st)])"
    with Suc.prems show ?thesis by auto
  next
    assume "\<exists>found. loop_body client w ev s t st
              = Running \<lparr>ids = found, page = page st + 1,
                          calls = calls st @ [page_request w ev s t (page st)]\<rparr>"
    then obtain found where step: "loop_body client w ev s t st
              = Running \<lparr>ids = found, page = page st + 1,
                          calls = calls st @ [page_request w ev s t (page st)]\<rparr>" ..
    with Suc.prems have "while_true n (loop_body client w ev s t)
        \<lparr>ids = found, page = page st + 1,
         calls = calls st @ [page_request w ev s t (page st)]\<rparr> = Running st'" by simp
    from Suc.IH [OF this] show ?thesis by simp
  qed
qed

lemma made_requests_pages:
  assumes "calls st = map (\<lambda>k. page_request w ev s t (int k)) [1..<Suc (length (calls st))]"
    and "page st = int (length (calls st)) + 1"
  shows "made_requests (while_true n (loop_body client w ev s t) st)
         = map (\<lambda>k. page_request w ev s t (int k))
             [1..<Suc (length (made_requests (while_true n (loop_body client w ev s t) st)))]"
  using assms
proof (induction n arbitrary: st)
  case 0
  then show ?case by (simp add: made_requests_def)
next
  case (Suc n)
  let ?made = "calls st @ [page_request w ev s t (page st)]"
  have made: "?made = map (\<lambda>k. page_request w ev s t (int k)) [1..<Suc (length ?made)]"
  proof -
    have "[1..<Suc (length ?made)] = [1..<Suc (length (calls st))] @ [Suc (length (calls st))]"
      by simp
    moreover have "page_request w ev s t (int (Suc (length (calls st))))
                   = page_request w ev s t (page st)"
      using Suc.prems(2) by (simp add: add.commute)
    ultimately show ?thesis using Suc.prems(1) by (simp del: upt_Suc)
  qed
  from loop_body_shape [of client w ev s t st] show ?case
  proof
    assume "\<exists>r. loop_body client w ev s t st = Finished r ?made"
    then obtain r where "loop_body client w ev s t st = Finished r ?made" ..
    then have "made_requests (while_true (Suc n) (loop_body client w ev s t) st) = ?made"
      by (simp add: made_requests_def)
    with made show ?thesis by (simp del: upt_Suc)
  next
    assume "\<exists>found. loop_body client w ev s t st
              = Running \<lparr>ids = found, page = page st + 1, calls = ?made\<rparr>"
    then obtain found where step: "loop_body client w ev s t st
              = Running \<lparr>ids = found, page = page st + 1, calls = ?made\<rparr>" ..
    let ?st1 = "\<lparr>ids = found, page = page st + 1, calls = ?made\<rparr>"
    have "made_requests (while_true n (loop_body client w ev s t) ?st1)
         = map (\<lambda>k. page_request w ev s t (int k))
             [1..<Suc (length (made_requests (while_true n (loop_body client w ev s t) ?st1)))]"
    proof (rule Suc.IH)
      show "calls ?st1 = map (\<lambda>k. page_request w ev s t (int k)) [1..<Suc (length (calls ?st1))]"
        using made by (simp del: upt_Suc)
      show "page ?st1 = int (length (calls ?st1)) + 1" using Suc.prems by simp
    qed
    with step show ?thesis by simp
  qed
qed

lemma internal_requests:
  "made_requests (internal_get_session_ids n client w ev s t)
   = map (\<lambda>k. page_request w ev s t (int k))
       [1..<Suc (length (made_requests (internal_get_session_ids n client w ev s t)))]"
  unfolding internal_get_session_ids_def by (rule made_requests_pages) simp_all


lemma empty_reply_no_content: "empty_reply reply \<Longrightarrow> page_content reply = None"
  by (auto simp: empty_reply_def page_content_def empty_dict_def split: sum.splits option.splits)

lemma loop_body_goes_on:
  assumes "more_pages (client (length (calls st)))"
  shows "\<exists>found. loop_body client w ev s t st
           = Running \<lparr>ids = found, page = page st + 1,
                       calls = calls st @ [page_request w ev s t (page st)]\<rparr>
         \<and> set found = set (ids st) \<union> reply_ids (client (length (calls st)))"
proof -
  from assms obtain sids p c where
    content: "page_content (client (length (calls st))) = Some (sids, p, c)" and "200 * p < c"
    by (auto simp: more_pages_def split: option.splits)
  then show ?thesis by (simp add: loop_body_page reply_ids_def)
qed

lemma loop_body_stops:
  assumes "\<not> more_pages (client (length (calls st)))"
  shows "\<exists>r. loop_body client w ev s t st
               = Finished r (calls st @ [page_request w ev s t (page st)])
         \<and> (last_page (client (length (calls st))) \<longrightarrow>
              (\<exists>found. r = Inr found \<and> distinct found
                 \<and> set found = set (ids st) \<union> reply_ids (client (length (calls st)))))
         \<and> (\<not> last_page (client (length (calls st))) \<longrightarrow> (\<exists>e. r = Inl e))"
proof (cases "empty_reply (client (length (calls st)))")
  case True
  then show ?thesis
    by (simp add: loop_body_empty last_page_def reply_ids_def empty_reply_no_content)
next
  case False
  show ?thesis
  proof (cases "page_content (client (length (calls st)))")
    case None
    with False loop_body_raises [of client st w ev s t] show ?thesis
      by (auto simp: last_page_def)
  next
    case (Some a)
    then obtain sids p c where
      content: "page_content (client (length (calls st))) = Some (sids, p, c)"
      by (cases a) auto
    with assms have "c \<le> 200 * p" by (simp add: more_pages_def)
    with content show ?thesis
      by (simp add: loop_body_page last_page_def reply_ids_def)
  qed
qed

lemma UN_atMost_shift: "(\<Union>i\<le>Suc k. A (j + i)) = A j \<union> (\<Union>i\<le>k. A (Suc (j + i)))"
  by (simp add: atMost_Suc_eq_insert_0 image_image)

lemma run_until:
  assumes "\<forall>i<k. more_pages (client (length (calls st) + i))"
    and "\<not> more_pages (client (length (calls st) + k))"
  shows "\<exists>r made. while_true (Suc k + extra) (loop_body client w ev s t) st = Finished r made
         \<and> length made = length (calls st) + k + 1
         \<and> (last_page (client (length (calls st) + k)) \<longrightarrow>
              (\<exists>found. r = Inr found \<and> distinct found
                 \<and> set found = set (ids st) \<union> (\<Union>i\<le>k. reply_ids (client (length (calls st) + i)))))
         \<and> (\<not> last_page (client (length (calls st) + k)) \<longrightarrow> (\<exists>e. r = Inl e))"
  using assms
proof (induction k arbitrary: st)
  case 0
  then have "\<not> more_pages (client (length (calls st)))" by simp
  with loop_body_stops [of client st w ev s t] show ?case by auto
next
  case (Suc k)
  from Suc.prems(1) have "more_pages (client (length (calls st)))" by auto
  with loop_body_goes_on [of client st w ev s t] obtain found where
    step: "loop_body client w ev s t st
           = Running \<lparr>ids = found, page = page st + 1,
                       calls = calls st @ [page_request w ev s t (page st)]\<rparr>"
    and found: "set found = set (ids st) \<union> reply_ids (client (length (calls st)))"
    by blast
  let ?st1 = "\<lparr>ids = found, page = page st + 1,
               calls = calls st @ [page_request w ev s t (page st)]\<rparr>"
  have len: "length (calls ?st1) = Suc (length (calls st))" by simp
  have "\<forall>i<k. more_pages (client (length (calls ?st1) + i))"
  proof (intro allI impI)
    fix i assume "i < k"
    then have "Suc i < Suc k" by simp
    with Suc.prems(1) have "more_pages (client (length (calls st) + Suc i))" by blast
    then show "more_pages (client (length (calls ?st1) + i))" by simp
  qed
  moreover have "\<not> more_pages (client (length (calls ?st1) + k))"
    using Suc.prems(2) by simp
  ultimately obtain r made where
    run: "while_true (Suc k + extra) (loop_body client w ev s t) ?st1 = Finished r made"
    and made: "length made = length (calls ?st1) + k + 1"
    and good: "last_page (client (length (calls ?st1) + k)) \<longrightarrow>
              (\<exists>found'. r = Inr found' \<and> distinct found'
                 \<and> set found' = set (ids ?st1) \<union> (\<Union>i\<le>k. reply_ids (client (length (calls ?st1) + i))))"
    and bad: "\<not> last_page (client (length (calls ?st1) + k)) \<longrightarrow> (\<exists>e. r = Inl e)"
    using Suc.IH [of ?st1] by blast
  have "while_true (Suc (Suc k) + extra) (loop_body client w ev s t) st = Finished r made"
    using step run by simp
  moreover have "length made = length (calls st) + Suc k + 1" using made by simp
  moreover have "last_page (client (length (calls st) + Suc k)) \<longrightarrow>
              (\<exists>found'. r = Inr found' \<and> distinct found'
                 \<and> set found' = set (ids st) \<union> (\<Union>i\<le>Suc k. reply_ids (client (length (calls st) + i))))"
  proof
    assume "last_page (client (length (calls st) + Suc k))"
    then have "last_page (client (length (calls ?st1) + k))" by simp
    with good obtain found' where "r = Inr found'" "distinct found'"
      and "set found' = set (ids ?st1) \<union> (\<Union>i\<le>k. reply_ids (client (length (calls ?st1) + i)))"
      by blast
    moreover from this(3) found
    have "set found' = set (ids st) \<union> (\<Union>i\<le>Suc k. reply_ids (client (length (calls st) + i)))"
      using UN_atMost_shift [where A = "\<lambda>n. reply_ids (client n)" and j = "length (calls st)" and k = k]
      by (simp add: Un_assoc)
    ultimately show "\<exists>found'. r = Inr found' \<and> distinct found'
                 \<and> set found' = set (ids st) \<union> (\<Union>i\<le>Suc k. reply_ids (client (length (calls st) + i)))"
      by blast
  qed
  moreover have "\<not> last_page (client (length (calls st) + Suc k)) \<longrightarrow> (\<exists>e. r = Inl e)"
    using bad by simp
  ultimately show ?case by blast
qed

lemma run_running:
  assumes "\<forall>i<n. more_pages (client (length (calls st) + i))"
  shows "\<exists>st'. while_true n (loop_body client w ev s t) st = Running st'"
  using assms
proof (induction n arbitrary: st)
  case 0
  show ?case by simp
next
  case (Suc n)
  from Suc.prems have "more_pages (client (length (calls st)))" by auto
  with loop_body_goes_on [of client st w ev s t] obtain found where
    step: "loop_body client w ev s t st
           = Running \<lparr>ids = found, page = page st + 1,
                       calls = calls st @ [page_request w ev s t (page st)]\<rparr>"
    by blast
  let ?st1 = "\<lparr>ids = found, page = page st + 1,
               calls = calls st @ [page_request w ev s t (page st)]\<rparr>"
  have "\<forall>i<n. more_pages (client (length (calls ?st1) + i))"
  proof (intro allI impI)
    fix i assume "i < n"
    then have "Suc i < Suc n" by simp
    with Suc.prems have "more_pages (client (length (calls st) + Suc i))" by blast
    then show "more_pages (client (length (calls ?st1) + i))" by simp
  qed
  from Suc.IH [OF this] step show ?case by simp
qed

lemma first_stop:
  assumes "\<not> more_pages (client (k::nat))"
  shows "\<exists>j\<le>k. (\<forall>i<j. more_pages (client i)) \<and> \<not> more_pages (client j)"
proof -
  let ?j = "LEAST j. \<not> more_pages (client j)"
  have "\<not> more_pages (client ?j)"
    using assms LeastI [of "\<lambda>j. \<not> more_pages (client j)" k] by simp
  moreover have "?j \<le> k"
    using assms Least_le [of "\<lambda>j. \<not> more_pages (client j)" k] by simp
  moreover have "\<forall>i<?j. more_pages (client i)"
    using not_less_Least [of _ "\<lambda>j. \<not> more_pages (client j)"] by blast
  ultimately show ?thesis by blast
qed

lemma internal_running:
  assumes "internal_get_session_ids k client w ev s t = Running st"
  shows "length (calls st) = k \<and> page st = int k + 1"
  using running_state [of k client w ev s t "\<lparr>ids = [], page = 1, calls = []\<rparr>" st] assms
  by (simp add: internal_get_session_ids_def)

lemma internal_next:
  assumes "internal_get_session_ids k client w ev s t = Running st"
  shows "internal_get_session_ids (Suc k) client w ev s t = loop_body client w ev s t st"
  using assms unfolding internal_get_session_ids_def by (simp only: while_true_snoc) simp

lemma last_page_stops: "last_page reply \<Longrightarrow> \<not> more_pages reply"
  by (auto simp: last_page_def more_pages_def empty_reply_no_content split: option.splits)

lemma internal_until:
  assumes "\<forall>i<k. more_pages (client i)" and "\<not> more_pages (client k)"
  shows "\<exists>r made. internal_get_session_ids (Suc k + extra) client w ev s t = Finished r made
         \<and> length made = k + 1
         \<and> (last_page (client k) \<longrightarrow>
              (\<exists>found. r = Inr found \<and> distinct found
                 \<and> set found = (\<Union>i\<le>k. reply_ids (client i))))
         \<and> (\<not> last_page (client k) \<longrightarrow> (\<exists>e. r = Inl e))"
  using run_until [of k client "\<lparr>ids = [], page = 1, calls = []\<rparr>" extra w ev s t] assms
  by (simp add: internal_get_session_ids_def)

lemma internal_keeps_running:
  assumes "\<forall>i<n. more_pages (client i)"
  shows "\<exists>st. internal_get_session_ids n client w ev s t = Running st"
  using run_running [of n client "\<lparr>ids = [], page = 1, calls = []\<rparr>" w ev s t] assms
  by (simp add: internal_get_session_ids_def)

subsection \<open>Evaluations on concrete replies\<close>

lemma session_ids_sessions: "session_ids (map session xs) = Inr xs"
  by (induction xs) (simp_all add: session_def subscript_def)

lemma count_450_content:
  "page_content (count_450 k)
   = Some (if k = 0 then [''A'', ''B''] else if k = 1 then [''B'', ''C'']
           else [''C'', ''A'', ''D''], int k + 1, 450)"
  by (simp add: count_450_def whole_page_def page_content_def session_ids_sessions)

lemma count_450_first_page:
  "internal_get_session_ids 1 count_450 ''site'' None 0 1
   = Running \<lparr>ids = [''A'', ''B''], page = 2, calls = [page_request ''site'' None 0 1 1]\<rparr>"
  by (simp add: internal_get_session_ids_def loop_body_page count_450_content)

lemma count_450_more: "k < 2 \<Longrightarrow> more_pages (count_450 k)"
  by (simp add: more_pages_def count_450_content)

lemma count_450_last: "last_page (count_450 2)"
  by (simp add: last_page_def count_450_content)

lemma count_450_ids:
  "(\<Union>k\<le>2. reply_ids (count_450 k)) = {''A'', ''B'', ''C'', ''D''}"
  by (auto simp: reply_ids_def count_450_content numeral_2_eq_2 atMost_Suc)

lemma two_pages_content:
  "page_content (two_pages 0) = Some ([''A'', ''A'', ''B''], 1, 5)"
  by (simp add: two_pages_def whole_page_def page_content_def session_def subscript_def)

lemma two_pages_first: "last_page (two_pages 0)"
  by (simp add: two_pages_def whole_page_def last_page_def page_content_def session_def
      subscript_def)

lemma two_pages_ids: "reply_ids (two_pages 0) = {''A'', ''B''}"
  by (simp add: two_pages_def whole_page_def reply_ids_def page_content_def session_def
      subscript_def)

lemma two_pages_stop: "\<not> more_pages (two_pages 0)"
  by (simp add: more_pages_def two_pages_content)

lemma endless_more_pages: "more_pages (endless k)"
  by (simp add: endless_def whole_page_def more_pages_def page_content_def)

lemma no_reply_empty: "empty_reply (no_reply k)"
  by (simp add: no_reply_def empty_reply_def)

subsection \<open>The claims about the collector\<close>

text \<open>
  Claim C1, as amended. When the reply to a request is \<^verbatim>\<open>None\<close> or the empty
  dictionary, the loop ends at that turn and the collector returns what it has gathered,
  without an exception; on the first page that is the empty list. A dictionary that is
  not empty and has no \<^verbatim>\<open>data\<close> is not such a reply: the lookup of \<^verbatim>\<open>data\<close> raises
  \<^verbatim>\<open>KeyError\<close>.
\<close>

theorem empty_reply_ends_the_loop:
  "(internal_get_session_ids k client w ev s t = Running st \<and> empty_reply (client k) \<longrightarrow>
      internal_get_session_ids (Suc k) client w ev s t
      = Finished (Inr (remdups (ids st))) (calls st @ [page_request w ev s t (int k + 1)]))
   \<and> (empty_reply (client 0) \<longrightarrow>
      internal_get_session_ids (Suc fuel) client w ev s t
      = Finished (Inr []) [page_request w ev s t 1])
   \<and> (internal_get_session_ids k client w ev s t = Running st \<and> client k = Inr (Some p)
        \<and> \<not> empty_dict p \<and> data_key p = None \<longrightarrow>
      internal_get_session_ids (Suc k) client w ev s t
      = Finished (Inl (KeyError ''data'')) (calls st @ [page_request w ev s t (int k + 1)]))"
proof (intro conjI impI)
  assume a: "internal_get_session_ids k client w ev s t = Running st \<and> empty_reply (client k)"
  then have "length (calls st) = k" "page st = int k + 1"
    using internal_running [of k client w ev s t st] by simp_all
  with a show "internal_get_session_ids (Suc k) client w ev s t
      = Finished (Inr (remdups (ids st))) (calls st @ [page_request w ev s t (int k + 1)])"
    by (simp add: internal_next loop_body_empty)
next
  assume "empty_reply (client 0)"
  then show "internal_get_session_ids (Suc fuel) client w ev s t
      = Finished (Inr []) [page_request w ev s t 1]"
    by (simp add: internal_get_session_ids_def loop_body_empty)
next
  assume a: "internal_get_session_ids k client w ev s t = Running st \<and> client k = Inr (Some p)
        \<and> \<not> empty_dict p \<and> data_key p = None"
  then have "length (calls st) = k" "page st = int k + 1"
    using internal_running [of k client w ev s t st] by simp_all
  with a show "internal_get_session_ids (Suc k) client w ev s t
      = Finished (Inl (KeyError ''data'')) (calls st @ [page_request w ev s t (int k + 1)])"
    by (simp add: internal_next loop_body_def subscript_def)
qed

theorem empty_reply_ends_the_loop_witness:
  "internal_get_session_ids 1 no_reply ''site'' None 0 1
     = Finished (Inr []) [page_request ''site'' None 0 1 1]
   \<and> internal_get_session_ids 3 no_reply ''site'' None 0 1
     = Finished (Inr []) [page_request ''site'' None 0 1 1]
   \<and> internal_get_session_ids 1 page_without_data ''site'' None 0 1
     = Finished (Inl (KeyError ''data'')) [page_request ''site'' None 0 1 1]"
proof -
  have start: "internal_get_session_ids 0 c ''site'' None 0 1
               = Running \<lparr>ids = [], page = 1, calls = []\<rparr>" for c
    by (simp add: internal_get_session_ids_def)
  have e: "empty_reply (no_reply 0)" by (simp add: empty_reply_def no_reply_def)
  have p: "page_without_data 0 = Inr (Some \<lparr>data_key = None, page_key = Some 1,
             count_key = Some 0, other_keys = [''pageSize'']\<rparr>)"
    by (simp add: page_without_data_def)
  note inst = empty_reply_ends_the_loop
    [of 0 _ "''site''" None 0 1 "\<lparr>ids = [], page = 1, calls = []\<rparr>" _
        "\<lparr>data_key = None, page_key = Some 1, count_key = Some 0, other_keys = [''pageSize'']\<rparr>"]
  from inst [of no_reply 2] inst [of page_without_data 0] start e p show ?thesis
    by (simp add: empty_dict_def)
qed

text \<open>
  The claim as it stands counts a reply without the key \<^verbatim>\<open>data\<close> among the empty
  ones. The source tests \<^verbatim>\<open>not events_where\<close>, which such a dictionary passes, and
  the collector raises.
\<close>

theorem page_without_data_raises:
  "page_without_data 0 = Inr (Some \<lparr>data_key = None, page_key = Some 1,
       count_key = Some 0, other_keys = [''pageSize'']\<rparr>)
   \<and> internal_get_session_ids 5 page_without_data ''site'' None 0 1
       = Finished (Inl (KeyError ''data'')) [page_request ''site'' None 0 1 1]"
  by (simp add: page_without_data_def internal_get_session_ids_def loop_body_def
      subscript_def empty_dict_def numeral_nat)

text \<open>
  Claim C2, as amended. Whatever the replies and however long the loop has run, the
  requests made so far ask for the pages 1, 2, 3, ... in this order, each with page
  size 200. When the loop has made \<open>k\<close> requests and is still running, its page
  counter is \<open>k + 1\<close>; if the reply to the next request is a whole page that reports
  page number \<open>p\<close> and count \<open>c\<close>, the loop ends at that turn exactly when
  \<open>200 * p \<ge> c\<close>, and otherwise adds one to the page counter and goes round again (so
  that the next request asks for the next page). The page number in the comparison is
  the one the reply reports, \<^verbatim>\<open>events_where["page"]\<close>; with an API that echoes the
  page asked for it is the value of the counter.
\<close>

theorem pages_are_requested_in_order:
  "map rq_page (made_requests (internal_get_session_ids fuel client w ev s t))
     = map int [1..<Suc (length (made_requests (internal_get_session_ids fuel client w ev s t)))]
   \<and> map rq_page_size (made_requests (internal_get_session_ids fuel client w ev s t))
     = replicate (length (made_requests (internal_get_session_ids fuel client w ev s t))) 200
   \<and> (internal_get_session_ids k client w ev s t = Running st
        \<and> page_content (client k) = Some (sids, p, c) \<longrightarrow>
        page st = int k + 1
        \<and> ((\<exists>r made. internal_get_session_ids (Suc k) client w ev s t = Finished r made)
             \<longleftrightarrow> c \<le> 200 * p)
        \<and> (200 * p < c \<longrightarrow>
             internal_get_session_ids (Suc k) client w ev s t
             = Running \<lparr>ids = ids st @ remdups sids, page = page st + 1,
                         calls = calls st @ [page_request w ev s t (page st)]\<rparr>))"
proof (intro conjI impI)
  let ?made = "made_requests (internal_get_session_ids fuel client w ev s t)"
  have shape: "?made = map (\<lambda>k. page_request w ev s t (int k)) [1..<Suc (length ?made)]"
    by (rule internal_requests)
  have "map rq_page ?made
        = map rq_page (map (\<lambda>k. page_request w ev s t (int k)) [1..<Suc (length ?made)])"
    using shape by simp
  then show "map rq_page ?made = map int [1..<Suc (length ?made)]"
    by (simp add: page_request_def comp_def del: upt_Suc)
  have "map rq_page_size ?made
        = map rq_page_size (map (\<lambda>k. page_request w ev s t (int k)) [1..<Suc (length ?made)])"
    using shape by simp
  then show "map rq_page_size ?made = replicate (length ?made) 200"
    by (simp add: page_request_def comp_def map_replicate_const del: upt_Suc)
next
  assume a: "internal_get_session_ids k client w ev s t = Running st
        \<and> page_content (client k) = Some (sids, p, c)"
  then show "page st = int k + 1" using internal_running [of k client w ev s t st] by simp
next
  assume a: "internal_get_session_ids k client w ev s t = Running st
        \<and> page_content (client k) = Some (sids, p, c)"
  then have "length (calls st) = k" using internal_running [of k client w ev s t st] by simp
  with a show "(\<exists>r made. internal_get_session_ids (Suc k) client w ev s t = Finished r made)
             \<longleftrightarrow> c \<le> 200 * p"
    by (simp add: internal_next loop_body_page)
next
  assume a: "internal_get_session_ids k client w ev s t = Running st
        \<and> page_content (client k) = Some (sids, p, c)" and "200 * p < c"
  moreover from a have "length (calls st) = k"
    using internal_running [of k client w ev s t st] by simp
  ultimately show "internal_get_session_ids (Suc k) client w ev s t
             = Running \<lparr>ids = ids st @ remdups sids, page = page st + 1,
                         calls = calls st @ [page_request w ev s t (page st)]\<rparr>"
    by (simp add: internal_next loop_body_page)
qed

theorem pages_are_requested_in_order_witness:
  "internal_get_session_ids 2 count_450 ''site'' None 0 1
   = Running \<lparr>ids = [''A'', ''B'', ''B'', ''C''], page = 3,
               calls = [page_request ''site'' None 0 1 1, page_request ''site'' None 0 1 2]\<rparr>
   \<and> map rq_page (made_requests (internal_get_session_ids 3 count_450 ''site'' None 0 1))
     = [1, 2, 3]
   \<and> map rq_page_size (made_requests (internal_get_session_ids 3 count_450 ''site'' None 0 1))
     = [200, 200, 200]"
proof -
  have two: "internal_get_session_ids 2 count_450 ''site'' None 0 1
   = Running \<lparr>ids = [''A'', ''B'', ''B'', ''C''], page = 3,
               calls = [page_request ''site'' None 0 1 1, page_request ''site'' None 0 1 2]\<rparr>"
    using pages_are_requested_in_order [of 0 count_450 "''site''" None 0 1 1
        "\<lparr>ids = [''A'', ''B''], page = 2, calls = [page_request ''site'' None 0 1 1]\<rparr>"
        "[''B'', ''C'']" 2 450]
      count_450_first_page count_450_content [of 1]
    by (simp add: numeral_2_eq_2)
  have "internal_get_session_ids 3 count_450 ''site'' None 0 1
        = loop_body count_450 ''site'' None 0 1 \<lparr>ids = [''A'', ''B'', ''B'', ''C''], page = 3,
               calls = [page_request ''site'' None 0 1 1, page_request ''site'' None 0 1 2]\<rparr>"
    using internal_next [OF two] by (simp add: numeral_3_eq_3 numeral_2_eq_2)
  then have len: "length (made_requests (internal_get_session_ids 3 count_450 ''site'' None 0 1)) = 3"
    by (simp add: loop_body_page count_450_content made_requests_def)
  from pages_are_requested_in_order [of 3 count_450 "''site''" None 0 1] len two
  show ?thesis by (simp add: numeral_3_eq_3)
qed

text \<open>
  The claim as it stands compares the count with 200 times the current page number.
  The two differ when the API does not echo the page asked for: the answer to the first
  request, while the counter is 1, reports page 2 of 300 events, and the loop ends
  there (\<open>400 \<ge> 300\<close>) although 200 times the counter is below the count.
\<close>

theorem reported_page_decides:
  "internal_get_session_ids 0 misreported ''site'' None 0 1
     = Running \<lparr>ids = [], page = 1, calls = []\<rparr>
   \<and> page_content (misreported 0) = Some ([''A''], 2, 300)
   \<and> 200 * page \<lparr>ids = [], page = 1, calls = []\<rparr> < 300
   \<and> internal_get_session_ids 1 misreported ''site'' None 0 1
     = Finished (Inr [''A'']) [page_request ''site'' None 0 1 1]"
proof -
  have content: "page_content (misreported k) = Some ([''A''], 2, 300)" for k
    by (simp add: misreported_def whole_page_def page_content_def session_def subscript_def)
  then show ?thesis
    by (simp add: internal_get_session_ids_def loop_body_page)
qed

text \<open>
  Claim C3. When the replies to the first \<open>n\<close> requests are pages with more to come
  and the next reply ends the loop (it is empty, or a whole page whose count is at most
  200 times its page number), then the collector, allowed more than \<open>n\<close> turns,
  returns a list without duplicates whose elements are exactly the session ids found in
  the data of the pages fetched, and it has requested the pages 1 to \<open>n + 1\<close> and no
  other: whatever the later replies would be, they are never asked for.
\<close>

theorem collected_session_ids:
  assumes "\<forall>k<n. more_pages (client k)" and "last_page (client n)"
  shows "\<exists>found.
           internal_get_session_ids (Suc n + extra) client w ev s t
           = Finished (Inr found) (map (\<lambda>k. page_request w ev s t (int k)) [1..<n + 2])
           \<and> distinct found
           \<and> set found = (\<Union>k\<le>n. reply_ids (client k))"
proof -
  from assms(2) have stop: "\<not> more_pages (client n)" by (rule last_page_stops)
  from internal_until [of n client "extra" w ev s t] assms stop
  obtain found made where
    run: "internal_get_session_ids (Suc n + extra) client w ev s t = Finished (Inr found) made"
    and len: "length made = n + 1"
    and found: "distinct found" "set found = (\<Union>k\<le>n. reply_ids (client k))"
    by blast
  from internal_requests [of "Suc n + extra" client w ev s t] run len
  have "made = map (\<lambda>k. page_request w ev s t (int k)) [1..<n + 2]"
    by (simp add: made_requests_def del: upt_Suc)
  with run found show ?thesis by blast
qed

theorem collected_session_ids_witness:
  "(\<exists>found. internal_get_session_ids 1 two_pages ''site'' None 0 1
             = Finished (Inr found) [page_request ''site'' None 0 1 1]
           \<and> distinct found \<and> set found = {''A'', ''B''})
   \<and> (\<exists>found. internal_get_session_ids 3 count_450 ''site'' None 0 1
             = Finished (Inr found)
                 [page_request ''site'' None 0 1 1, page_request ''site'' None 0 1 2,
                  page_request ''site'' None 0 1 3]
           \<and> distinct found \<and> set found = {''A'', ''B'', ''C'', ''D''})"
proof -
  have "\<forall>k<2. more_pages (count_450 k)" by (simp add: count_450_more)
  from collected_session_ids [OF this count_450_last, of 0 "''site''" None 0 1]
  have "\<exists>found. internal_get_session_ids 3 count_450 ''site'' None 0 1
             = Finished (Inr found)
                 [page_request ''site'' None 0 1 1, page_request ''site'' None 0 1 2,
                  page_request ''site'' None 0 1 3]
           \<and> distinct found \<and> set found = {''A'', ''B'', ''C'', ''D''}"
    by (simp add: count_450_ids numeral_3_eq_3 upt_rec)
  moreover
  from collected_session_ids [of 0 two_pages 0 "''site''" None 0 1] two_pages_first two_pages_ids
  have "\<exists>found. internal_get_session_ids 1 two_pages ''site'' None 0 1
             = Finished (Inr found) [page_request ''site'' None 0 1 1]
           \<and> distinct found \<and> set found = {''A'', ''B''}"
    by simp
  ultimately show ?thesis by blast
qed

text \<open>
  Claim C9, as amended. Nothing in the loop bounds the number of pages. If every reply
  is a whole page that reports a count above 200 times the page number it reports, the
  loop is still running after any number of turns, having made one request per turn.
  The loop ends exactly when some reply is not of that kind. For replies that are each
  either empty or a whole page this means: the collector returns exactly when some
  reply is empty or reports a count of at most 200 times its page number. Any other
  reply (a request that raises, a dictionary that lacks a key) ends the loop with the
  exception.
\<close>

theorem paging_has_no_bound:
  "((\<forall>k. more_pages (client k)) \<longrightarrow>
      (\<forall>fuel. \<exists>st. internal_get_session_ids fuel client w ev s t = Running st
                     \<and> length (calls st) = fuel))
   \<and> ((\<exists>fuel r made. internal_get_session_ids fuel client w ev s t = Finished r made)
        \<longleftrightarrow> (\<exists>k. \<not> more_pages (client k)))
   \<and> ((\<forall>k. empty_reply (client k) \<or> page_content (client k) \<noteq> None) \<longrightarrow>
        ((\<exists>fuel found made.
            internal_get_session_ids fuel client w ev s t = Finished (Inr found) made)
         \<longleftrightarrow> (\<exists>k. last_page (client k))))"
proof (intro conjI impI allI)
  fix fuel
  assume "\<forall>k. more_pages (client k)"
  then have "\<forall>i<fuel. more_pages (client i)" by simp
  from internal_keeps_running [OF this, of w ev s t] obtain st where
    "internal_get_session_ids fuel client w ev s t = Running st" ..
  with internal_running [OF this]
  show "\<exists>st. internal_get_session_ids fuel client w ev s t = Running st
             \<and> length (calls st) = fuel" by simp
next
  show "(\<exists>fuel r made. internal_get_session_ids fuel client w ev s t = Finished r made)
        \<longleftrightarrow> (\<exists>k. \<not> more_pages (client k))"
  proof
    assume "\<exists>fuel r made. internal_get_session_ids fuel client w ev s t = Finished r made"
    then obtain fuel r made where
      fin: "internal_get_session_ids fuel client w ev s t = Finished r made" by blast
    show "\<exists>k. \<not> more_pages (client k)"
    proof (rule ccontr)
      assume "\<not> (\<exists>k. \<not> more_pages (client k))"
      then have "\<forall>i<fuel. more_pages (client i)" by simp
      from internal_keeps_running [OF this, of w ev s t] fin show False by auto
    qed
  next
    assume "\<exists>k. \<not> more_pages (client k)"
    then obtain k where "\<not> more_pages (client k)" ..
    with first_stop [of client k] obtain j where
      "\<forall>i<j. more_pages (client i)" "\<not> more_pages (client j)" by blast
    with internal_until [of j client 0 w ev s t]
    show "\<exists>fuel r made. internal_get_session_ids fuel client w ev s t = Finished r made"
      by blast
  qed
next
  assume wf: "\<forall>k. empty_reply (client k) \<or> page_content (client k) \<noteq> None"
  have stop_is_last: "last_page (client k)" if "\<not> more_pages (client k)" for k
    using wf [rule_format, of k] that
    by (auto simp: last_page_def more_pages_def split: option.splits)
  show "(\<exists>fuel found made.
            internal_get_session_ids fuel client w ev s t = Finished (Inr found) made)
         \<longleftrightarrow> (\<exists>k. last_page (client k))"
  proof
    assume "\<exists>fuel found made.
            internal_get_session_ids fuel client w ev s t = Finished (Inr found) made"
    then obtain fuel found made where
      fin: "internal_get_session_ids fuel client w ev s t = Finished (Inr found) made" by blast
    have "\<exists>k. \<not> more_pages (client k)"
    proof (rule ccontr)
      assume "\<not> (\<exists>k. \<not> more_pages (client k))"
      then have "\<forall>i<fuel. more_pages (client i)" by simp
      from internal_keeps_running [OF this, of w ev s t] fin show False by auto
    qed
    then obtain k where "\<not> more_pages (client k)" ..
    then have "last_page (client k)" by (rule stop_is_last)
    then show "\<exists>k. last_page (client k)" ..
  next
    assume "\<exists>k. last_page (client k)"
    then obtain k where "last_page (client k)" ..
    then have "\<not> more_pages (client k)" by (rule last_page_stops)
    with first_stop [of client k] obtain j where
      j: "\<forall>i<j. more_pages (client i)" "\<not> more_pages (client j)" by blast
    from j(2) have "last_page (client j)" by (rule stop_is_last)
    with j internal_until [of j client 0 w ev s t]
    show "\<exists>fuel found made.
            internal_get_session_ids fuel client w ev s t = Finished (Inr found) made"
      by blast
  qed
qed

theorem paging_has_no_bound_witness:
  "(\<forall>fuel. \<exists>st. internal_get_session_ids fuel endless ''site'' None 0 1 = Running st
                  \<and> length (calls st) = fuel)
   \<and> (\<exists>fuel found made.
         internal_get_session_ids fuel no_reply ''site'' None 0 1 = Finished (Inr found) made)"
proof -
  have "last_page (no_reply 0)" by (simp add: last_page_def no_reply_empty)
  then have "\<exists>k. last_page (no_reply k)" ..
  with paging_has_no_bound [of endless "''site''" None 0 1]
    paging_has_no_bound [of no_reply "''site''" None 0 1]
    endless_more_pages no_reply_empty
  show ?thesis by blast
qed

text \<open>
  The claim as it stands speaks of the current page number and of two ways for the loop
  to end. First, the replies of \<open>ahead_by_one\<close> are never empty and each reports a
  count above 200 times the page counter of its turn, and still the loop ends at the
  first turn, on the page number in the reply. Second, the replies of \<open>breaks_off\<close>
  are a page with a count of 1000 and then a failed request: no reply is empty, no
  count is small, and the loop ends at the second turn with the exception.
\<close>

theorem paging_depends_on_the_reply:
  "(\<forall>k. \<exists>sids p c. page_content (ahead_by_one k) = Some (sids, p, c)
          \<and> 200 * (int k + 1) < c)
   \<and> internal_get_session_ids 1 ahead_by_one ''site'' None 0 1
     = Finished (Inr []) [page_request ''site'' None 0 1 1]
   \<and> page_content (breaks_off 0) = Some ([''A''], 1, 1000)
   \<and> breaks_off 1 = Inl (OtherError ''timed out'')
   \<and> internal_get_session_ids 2 breaks_off ''site'' None 0 1
     = Finished (Inl (OtherError ''timed out''))
         [page_request ''site'' None 0 1 1, page_request ''site'' None 0 1 2]"
proof -
  have ahead: "page_content (ahead_by_one k) = Some ([], int k + 2, 200 * (int k + 1) + 100)"
    for k by (simp add: ahead_by_one_def whole_page_def page_content_def)
  have first: "page_content (breaks_off 0) = Some ([''A''], 1, 1000)"
    by (simp add: breaks_off_def whole_page_def page_content_def session_def subscript_def)
  have second: "breaks_off (Suc 0) = Inl (OtherError ''timed out'')"
    by (simp add: breaks_off_def)
  have "internal_get_session_ids 1 ahead_by_one ''site'' None 0 1
     = Finished (Inr []) [page_request ''site'' None 0 1 1]"
    by (simp add: internal_get_session_ids_def loop_body_page ahead)
  moreover have "internal_get_session_ids 2 breaks_off ''site'' None 0 1
     = Finished (Inl (OtherError ''timed out''))
         [page_request ''site'' None 0 1 1, page_request ''site'' None 0 1 2]"
    by (simp add: internal_get_session_ids_def numeral_2_eq_2 loop_body_page first)
       (simp add: loop_body_def second)
  ultimately show ?thesis using ahead first second by simp
qed

section \<open>Properties of the tool handlers\<close>

lemma except_clause_requests: "requests (except_clause name label r) = snd r"
  by (cases r) (simp add: except_clause_def split: sum.splits)

lemma two_pages_listing:
  "get_session_ids 1 cpython_utc two_pages dumps_strings ''site'' ''2024-03-01'' ''2024-03-02''
     None
   = Some \<lparr>returned = ''['' @ [CHR 0x0A] @ ''  '' @ [CHR 0x22] @ ''A'' @ [CHR 0x22] @ '',''
              @ [CHR 0x0A] @ ''  '' @ [CHR 0x22] @ ''B'' @ [CHR 0x22] @ [CHR 0x0A] @ '']'',
           requests = [Get_events_where
                         (page_request ''site'' None 1709251200000 1709423999999 1)],
           logged = []\<rparr>"
  by (simp add: get_session_ids_def get_session_ids_try_def convert_2024_03_01
      convert_2024_03_02 internal_get_session_ids_def loop_body_page two_pages_content
      dumps_strings_def except_clause_def)

text \<open>
  Claim C7, as amended. The type of a handler has no place for an exception: what it
  gives is a text. The text is the handler's own label followed by \<^verbatim>\<open>str(e)\<close> for
  every exception \<open>e\<close> of its \<^verbatim>\<open>try\<close> block, whether it comes from a date, from the
  client, from the collector or from \<^verbatim>\<open>json.dumps\<close>, and it is the dumped answer
  otherwise. Each handler but the session listing returns under all conditions. The
  session listing returns as soon as some reply ends the loop of the collector, and
  until then it is still waiting for the collector (\<open>None\<close>).
\<close>

theorem handlers_turn_errors_into_text:
  "returned (get_websites client dumps)
     = (case client Get_websites of
          Inl e \<Rightarrow> ''Error fetching websites: '' @ str_exn e
        | Inr sites \<Rightarrow>
            (case dumps sites of
               Inl e \<Rightarrow> ''Error fetching websites: '' @ str_exn e
             | Inr s \<Rightarrow> s))
   \<and> returned (get_active_visitors client dumps w)
     = (case client (Get_active w) of
          Inl e \<Rightarrow> ''Error fetching active visitors: '' @ str_exn e
        | Inr data \<Rightarrow>
            (case dumps data of
               Inl e \<Rightarrow> ''Error fetching active visitors: '' @ str_exn e
             | Inr s \<Rightarrow> s))
   \<and> returned (get_tracking_data P client dumps w sid a b)
     = (case convert_date_to_unix P a False of
          Inl e \<Rightarrow> ''Error fetching tracking data: '' @ str_exn e
        | Inr x \<Rightarrow>
       (case convert_date_to_unix P b True of
          Inl e \<Rightarrow> ''Error fetching tracking data: '' @ str_exn e
        | Inr y \<Rightarrow>
       (case client (Get_user_activity w sid x y) of
          Inl e \<Rightarrow> ''Error fetching tracking data: '' @ str_exn e
        | Inr data \<Rightarrow>
       (case dumps data of
          Inl e \<Rightarrow> ''Error fetching tracking data: '' @ str_exn e
        | Inr s \<Rightarrow> s))))
   \<and> returned (get_website_stats P client dumps w a b)
     = (case convert_date_to_unix P a False of
          Inl e \<Rightarrow> ''Error fetching website stats: '' @ str_exn e
        | Inr x \<Rightarrow>
       (case convert_date_to_unix P b True of
          Inl e \<Rightarrow> ''Error fetching website stats: '' @ str_exn e
        | Inr y \<Rightarrow>
       (case client (Get_website_stats w x y) of
          Inl e \<Rightarrow> ''Error fetching website stats: '' @ str_exn e
        | Inr data \<Rightarrow>
       (case dumps data of
          Inl e \<Rightarrow> ''Error fetching website stats: '' @ str_exn e
        | Inr s \<Rightarrow> s))))
   \<and> returned (get_website_metrics P client dumps w a b ty)
     = (case convert_date_to_unix P a False of
          Inl e \<Rightarrow> ''Error fetching website metrics: '' @ str_exn e
        | Inr x \<Rightarrow>
       (case convert_date_to_unix P b True of
          Inl e \<Rightarrow> ''Error fetching website metrics: '' @ str_exn e
        | Inr y \<Rightarrow>
       (case client (Get_website_metrics w x y ty) of
          Inl e \<Rightarrow> ''Error fetching website metrics: '' @ str_exn e
        | Inr data \<Rightarrow>
       (case dumps data of
          Inl e \<Rightarrow> ''Error fetching website metrics: '' @ str_exn e
        | Inr s \<Rightarrow> s))))
   \<and> returned (get_pageview_series P client dumps w a b u tz)
     = (case convert_date_to_unix P a False of
          Inl e \<Rightarrow> ''Error fetching pageview series: '' @ str_exn e
        | Inr x \<Rightarrow>
       (case convert_date_to_unix P b True of
          Inl e \<Rightarrow> ''Error fetching pageview series: '' @ str_exn e
        | Inr y \<Rightarrow>
       (case client (Get_pageview_series w x y u tz) of
          Inl e \<Rightarrow> ''Error fetching pageview series: '' @ str_exn e
        | Inr data \<Rightarrow>
       (case dumps data of
          Inl e \<Rightarrow> ''Error fetching pageview series: '' @ str_exn e
        | Inr s \<Rightarrow> s))))
   \<and> map_option returned (get_session_ids fuel P events dumps_ids w a b ev)
     = (case convert_date_to_unix P a False of
          Inl e \<Rightarrow> Some (''Error fetching session IDs: '' @ str_exn e)
        | Inr x \<Rightarrow>
       (case convert_date_to_unix P b True of
          Inl e \<Rightarrow> Some (''Error fetching session IDs: '' @ str_exn e)
        | Inr y \<Rightarrow>
       (case internal_get_session_ids fuel events w ev x y of
          Running st \<Rightarrow> None
        | Finished (Inl e) made \<Rightarrow> Some (''Error fetching session IDs: '' @ str_exn e)
        | Finished (Inr found) made \<Rightarrow>
       (case dumps_ids found of
          Inl e \<Rightarrow> Some (''Error fetching session IDs: '' @ str_exn e)
        | Inr s \<Rightarrow> Some s))))
   \<and> ((\<exists>k. \<not> more_pages (events k)) \<longrightarrow>
        (\<exists>n r. get_session_ids n P events dumps_ids w a b ev = Some r))"
proof (intro conjI impI)
  show "returned (get_websites client dumps)
     = (case client Get_websites of
          Inl e \<Rightarrow> ''Error fetching websites: '' @ str_exn e
        | Inr sites \<Rightarrow>
            (case dumps sites of
               Inl e \<Rightarrow> ''Error fetching websites: '' @ str_exn e
             | Inr s \<Rightarrow> s))"
    by (simp add: get_websites_def get_websites_try_def except_clause_def split: sum.splits)
  show "returned (get_active_visitors client dumps w)
     = (case client (Get_active w) of
          Inl e \<Rightarrow> ''Error fetching active visitors: '' @ str_exn e
        | Inr data \<Rightarrow>
            (case dumps data of
               Inl e \<Rightarrow> ''Error fetching active visitors: '' @ str_exn e
             | Inr s \<Rightarrow> s))"
    by (simp add: get_active_visitors_def get_active_visitors_try_def except_clause_def
        split: sum.splits)
  show "returned (get_tracking_data P client dumps w sid a b)
     = (case convert_date_to_unix P a False of
          Inl e \<Rightarrow> ''Error fetching tracking data: '' @ str_exn e
        | Inr x \<Rightarrow>
       (case convert_date_to_unix P b True of
          Inl e \<Rightarrow> ''Error fetching tracking data: '' @ str_exn e
        | Inr y \<Rightarrow>
       (case client (Get_user_activity w sid x y) of
          Inl e \<Rightarrow> ''Error fetching tracking data: '' @ str_exn e
        | Inr data \<Rightarrow>
       (case dumps data of
          Inl e \<Rightarrow> ''Error fetching tracking data: '' @ str_exn e
        | Inr s \<Rightarrow> s))))"
    by (simp add: get_tracking_data_def get_tracking_data_try_def except_clause_def Let_def
        split: sum.splits)
  show "returned (get_website_stats P client dumps w a b)
     = (case convert_date_to_unix P a False of
          Inl e \<Rightarrow> ''Error fetching website stats: '' @ str_exn e
        | Inr x \<Rightarrow>
       (case convert_date_to_unix P b True of
          Inl e \<Rightarrow> ''Error fetching website stats: '' @ str_exn e
        | Inr y \<Rightarrow>
       (case client (Get_website_stats w x y) of
          Inl e \<Rightarrow> ''Error fetching website stats: '' @ str_exn e
        | Inr data \<Rightarrow>
       (case dumps data of
          Inl e \<Rightarrow> ''Error fetching website stats: '' @ str_exn e
        | Inr s \<Rightarrow> s))))"
    by (simp add: get_website_stats_def get_website_stats_try_def except_clause_def Let_def
        split: sum.splits)
  show "returned (get_website_metrics P client dumps w a b ty)
     = (case convert_date_to_unix P a False of
          Inl e \<Rightarrow> ''Error fetching website metrics: '' @ str_exn e
        | Inr x \<Rightarrow>
       (case convert_date_to_unix P b True of
          Inl e \<Rightarrow> ''Error fetching website metrics: '' @ str_exn e
        | Inr y \<Rightarrow>
       (case client (Get_website_metrics w x y ty) of
          Inl e \<Rightarrow> ''Error fetching website metrics: '' @ str_exn e
        | Inr data \<Rightarrow>
       (case dumps data of
          Inl e \<Rightarrow> ''Error fetching website metrics: '' @ str_exn e
        | Inr s \<Rightarrow> s))))"
    by (simp add: get_website_metrics_def get_website_metrics_try_def except_clause_def Let_def
        split: sum.splits)
  show "returned (get_pageview_series P client dumps w a b u tz)
     = (case convert_date_to_unix P a False of
          Inl e \<Rightarrow> ''Error fetching pageview series: '' @ str_exn e
        | Inr x \<Rightarrow>
       (case convert_date_to_unix P b True of
          Inl e \<Rightarrow> ''Error fetching pageview series: '' @ str_exn e
        | Inr y \<Rightarrow>
       (case client (Get_pageview_series w x y u tz) of
          Inl e \<Rightarrow> ''Error fetching pageview series: '' @ str_exn e
        | Inr data \<Rightarrow>
       (case dumps data of
          Inl e \<Rightarrow> ''Error fetching pageview series: '' @ str_exn e
        | Inr s \<Rightarrow> s))))"
    by (simp add: get_pageview_series_def get_pageview_series_try_def except_clause_def Let_def
        split: sum.splits)
  show "map_option returned (get_session_ids fuel P events dumps_ids w a b ev)
     = (case convert_date_to_unix P a False of
          Inl e \<Rightarrow> Some (''Error fetching session IDs: '' @ str_exn e)
        | Inr x \<Rightarrow>
       (case convert_date_to_unix P b True of
          Inl e \<Rightarrow> Some (''Error fetching session IDs: '' @ str_exn e)
        | Inr y \<Rightarrow>
       (case internal_get_session_ids fuel events w ev x y of
          Running st \<Rightarrow> None
        | Finished (Inl e) made \<Rightarrow> Some (''Error fetching session IDs: '' @ str_exn e)
        | Finished (Inr found) made \<Rightarrow>
       (case dumps_ids found of
          Inl e \<Rightarrow> Some (''Error fetching session IDs: '' @ str_exn e)
        | Inr s \<Rightarrow> Some s))))"
    by (simp add: get_session_ids_def get_session_ids_try_def except_clause_def
        split: sum.splits outcome.splits)
next
  assume "\<exists>k. \<not> more_pages (events k)"
  then obtain k where "\<not> more_pages (events k)" ..
  with first_stop [of events k] obtain j where
    j: "\<forall>i<j. more_pages (events i)" "\<not> more_pages (events j)" by blast
  show "\<exists>n r. get_session_ids n P events dumps_ids w a b ev = Some r"
  proof (cases "convert_date_to_unix P a False")
    case (Inl e)
    then show ?thesis by (simp add: get_session_ids_def get_session_ids_try_def)
  next
    case x: (Inr x)
    show ?thesis
    proof (cases "convert_date_to_unix P b True")
      case (Inl e)
      with x show ?thesis by (simp add: get_session_ids_def get_session_ids_try_def)
    next
      case y: (Inr y)
      from internal_until [of j events 0 w ev x y] j obtain r made where
        "internal_get_session_ids (Suc j + 0) events w ev x y = Finished r made" by blast
      with x y have "\<exists>r. get_session_ids (Suc j + 0) P events dumps_ids w a b ev = Some r"
        by (simp add: get_session_ids_def get_session_ids_try_def split: sum.splits)
      then show ?thesis ..
    qed
  qed
qed

theorem handlers_turn_errors_into_text_witness:
  "returned (get_websites unreachable_api dumps_text)
     = ''Error fetching websites: connection refused''
   \<and> returned (get_website_stats cpython_utc echo_api dumps_text ''site'' ''not-a-date''
        ''2024-03-02'')
     = ''Error fetching website stats: '' @ invalid_date_format @ ''time data '' @ [CHR 0x27]
       @ ''not-a-date'' @ [CHR 0x27] @ '' does not match format '' @ [CHR 0x27]
       @ ''%Y-%m-%d'' @ [CHR 0x27]
   \<and> (\<exists>n r. get_session_ids n cpython_utc two_pages dumps_strings ''site'' ''2024-03-01''
          ''2024-03-02'' None = Some r)"
proof -
  have "\<exists>k. \<not> more_pages (two_pages k)" using two_pages_stop ..
  with handlers_turn_errors_into_text [of unreachable_api dumps_text _ cpython_utc _
      "''not-a-date''" "''2024-03-02''"]
    handlers_turn_errors_into_text [of echo_api dumps_text "''site''" cpython_utc _
      "''not-a-date''" "''2024-03-02''"]
    handlers_turn_errors_into_text [of echo_api dumps_text "''site''" cpython_utc _
      "''2024-03-01''" "''2024-03-02''" _ _ _ _ two_pages dumps_strings None]
  show ?thesis
    by (simp add: unreachable_api_def convert_not_a_date)
qed

text \<open>
  The claim as it stands has every handler return under all conditions. With replies
  that always report a further page (\<open>endless\<close>) the session listing never does.
\<close>

theorem session_listing_may_never_return:
  "\<not> (\<exists>n r. get_session_ids n cpython_utc endless dumps_strings ''site'' ''2024-03-01''
          ''2024-03-02'' None = Some r)"
proof
  assume "\<exists>n r. get_session_ids n cpython_utc endless dumps_strings ''site'' ''2024-03-01''
          ''2024-03-02'' None = Some r"
  then obtain n r where some: "get_session_ids n cpython_utc endless dumps_strings ''site''
          ''2024-03-01'' ''2024-03-02'' None = Some r" by blast
  have "\<forall>i<n. more_pages (endless i)" by (simp add: endless_more_pages)
  from internal_keeps_running [OF this, of "''site''" None 1709251200000 1709423999999]
  obtain st where
    "internal_get_session_ids n endless ''site'' None 1709251200000 1709423999999 = Running st" ..
  with some show False
    by (simp add: get_session_ids_def get_session_ids_try_def convert_2024_03_01
        convert_2024_03_02)
qed

text \<open>
  Claim C8. In each handler that takes a start and an end date, when both dates are
  accepted the request to the client carries the start date converted with
  \<open>end_of_day = False\<close> and the end date converted with \<open>end_of_day = True\<close>; for the
  session listing these are the bounds of every page request that the collector makes.
\<close>

theorem requests_carry_normalized_dates:
  assumes "convert_date_to_unix P start_at False = Inr x"
    and "convert_date_to_unix P end_at True = Inr y"
  shows "requests (get_tracking_data P client dumps w sid start_at end_at)
         = [Get_user_activity w sid x y]
       \<and> requests (get_website_stats P client dumps w start_at end_at)
         = [Get_website_stats w x y]
       \<and> requests (get_website_metrics P client dumps w start_at end_at ty)
         = [Get_website_metrics w x y ty]
       \<and> requests (get_pageview_series P client dumps w start_at end_at u tz)
         = [Get_pageview_series w x y u tz]
       \<and> (get_session_ids fuel P events dumps_ids w start_at end_at ev = Some r \<longrightarrow>
            (\<exists>n. requests r
                 = map (\<lambda>k. Get_events_where (page_request w ev x y (int k))) [1..<Suc n]))"
proof (intro conjI impI)
  show "requests (get_tracking_data P client dumps w sid start_at end_at)
         = [Get_user_activity w sid x y]"
    using assms
    by (simp add: get_tracking_data_def get_tracking_data_try_def except_clause_requests Let_def
        split: sum.splits)
  show "requests (get_website_stats P client dumps w start_at end_at)
         = [Get_website_stats w x y]"
    using assms
    by (simp add: get_website_stats_def get_website_stats_try_def except_clause_requests Let_def
        split: sum.splits)
  show "requests (get_website_metrics P client dumps w start_at end_at ty)
         = [Get_website_metrics w x y ty]"
    using assms
    by (simp add: get_website_metrics_def get_website_metrics_try_def except_clause_requests Let_def
        split: sum.splits)
  show "requests (get_pageview_series P client dumps w start_at end_at u tz)
         = [Get_pageview_series w x y u tz]"
    using assms
    by (simp add: get_pageview_series_def get_pageview_series_try_def except_clause_requests Let_def
        split: sum.splits)
next
  assume some: "get_session_ids fuel P events dumps_ids w start_at end_at ev = Some r"
  let ?out = "internal_get_session_ids fuel events w ev x y"
  from some obtain tr where
    tr: "get_session_ids_try fuel P events dumps_ids w start_at end_at ev = Some tr"
    and r: "r = except_clause ''get_session_ids'' ''Error fetching session IDs: '' tr"
    by (auto simp: get_session_ids_def)
  from tr assms have "snd tr = map Get_events_where (made_requests ?out)"
    by (auto simp: get_session_ids_try_def made_requests_def split: outcome.splits sum.splits)
  with r have "requests r = map Get_events_where (made_requests ?out)"
    by (simp add: except_clause_requests)
  also have "made_requests ?out
      = map (\<lambda>k. page_request w ev x y (int k)) [1..<Suc (length (made_requests ?out))]"
    by (rule internal_requests)
  finally have "requests r = map (\<lambda>k. Get_events_where (page_request w ev x y (int k)))
      [1..<Suc (length (made_requests ?out))]"
    by (simp add: comp_def del: upt_Suc)
  then show "\<exists>n. requests r
                 = map (\<lambda>k. Get_events_where (page_request w ev x y (int k))) [1..<Suc n]" ..
qed

theorem requests_carry_normalized_dates_witness:
  "requests (get_tracking_data cpython_utc echo_api dumps_text ''site'' ''s1'' ''2024-03-01''
      ''2024-03-02'')
     = [Get_user_activity ''site'' ''s1'' 1709251200000 1709423999999]
   \<and> requests (get_pageview_series cpython_utc echo_api dumps_text ''site'' ''2024-03-01''
      ''2024-03-02'' ''day'' ''UTC'')
     = [Get_pageview_series ''site'' 1709251200000 1709423999999 ''day'' ''UTC'']
   \<and> map_option requests (get_session_ids 1 cpython_utc two_pages dumps_strings ''site''
      ''2024-03-01'' ''2024-03-02'' None)
     = Some [Get_events_where (page_request ''site'' None 1709251200000 1709423999999 1)]"
  using requests_carry_normalized_dates [OF convert_2024_03_01 convert_2024_03_02,
      of echo_api dumps_text "''site''" "''s1''" _ "''day''" "''UTC''"]
    two_pages_listing
  by simp

text \<open>
  Claim C10. In each handler that takes a start and an end date, if the conversion of
  either date raises, the handler returns without a single request to the client; the
  session listing returns at once, before the collector has asked for a page.
\<close>

theorem bad_date_makes_no_request:
  assumes "convert_date_to_unix P start_at False = Inl e
           \<or> convert_date_to_unix P end_at True = Inl e"
  shows "requests (get_tracking_data P client dumps w sid start_at end_at) = []
       \<and> requests (get_website_stats P client dumps w start_at end_at) = []
       \<and> requests (get_website_metrics P client dumps w start_at end_at ty) = []
       \<and> requests (get_pageview_series P client dumps w start_at end_at u tz) = []
       \<and> (\<exists>r. get_session_ids fuel P events dumps_ids w start_at end_at ev = Some r
              \<and> requests r = [])"
proof (intro conjI)
  show "requests (get_tracking_data P client dumps w sid start_at end_at) = []"
    using assms
    by (auto simp: get_tracking_data_def get_tracking_data_try_def except_clause_def
        split: sum.splits)
  show "requests (get_website_stats P client dumps w start_at end_at) = []"
    using assms
    by (auto simp: get_website_stats_def get_website_stats_try_def except_clause_def
        split: sum.splits)
  show "requests (get_website_metrics P client dumps w start_at end_at ty) = []"
    using assms
    by (auto simp: get_website_metrics_def get_website_metrics_try_def except_clause_def
        split: sum.splits)
  show "requests (get_pageview_series P client dumps w start_at end_at u tz) = []"
    using assms
    by (auto simp: get_pageview_series_def get_pageview_series_try_def except_clause_def
        split: sum.splits)
  show "\<exists>r. get_session_ids fuel P events dumps_ids w start_at end_at ev = Some r
              \<and> requests r = []"
    using assms
    by (auto simp: get_session_ids_def get_session_ids_try_def except_clause_def
        split: sum.splits)
qed

theorem bad_date_makes_no_request_witness:
  "requests (get_tracking_data cpython_utc echo_api dumps_text ''site'' ''s1'' ''not-a-date''
      ''2024-03-02'') = []
   \<and> requests (get_website_stats cpython_utc echo_api dumps_text ''site'' ''2024-03-01''
      ''03/02/2024'') = []
   \<and> (\<exists>r. get_session_ids 0 cpython_utc two_pages dumps_strings ''site'' ''2024-03-01''
           ''03/02/2024'' None = Some r \<and> requests r = [])"
proof -
  note start_bad = bad_date_makes_no_request
    [where end_at = "''2024-03-02''" and client = echo_api and dumps = dumps_text
       and w = "''site''" and sid = "''s1''", OF disjI1 [OF convert_not_a_date]]
  note end_bad = bad_date_makes_no_request
    [where start_at = "''2024-03-01''" and client = echo_api and dumps = dumps_text
       and w = "''site''" and fuel = 0 and events = two_pages and dumps_ids = dumps_strings
       and ev = None, OF disjI2 [OF convert_slashes]]
  from start_bad end_bad show ?thesis by blast
qed

end
